theory Spec2Isabelle
  imports Complex_Main
begin

section \<open>The simulation constants\<close>

text \<open>
  \<^verbatim>\<open>model.py\<close> reads every number it uses from the module
  \<^verbatim>\<open>exercises.ex09.constants\<close>, which is not among the sources. The constants are
  therefore a parameter of every function of the model: a record with one field per
  name that \<^verbatim>\<open>model.py\<close> mentions. Python integers are unbounded and are \<open>int\<close>.

  The program is embedded twice. In the first embedding, which carries the statements
  about health, counts, construction and the four tests of \<^verbatim>\<open>enforce_bounds\<close>, a
  Python float is idealised as a real: no NaN, no infinity, no rounding. The second
  embedding, on IEEE doubles, carries the statements that depend on what floating-point
  arithmetic does: which pairs the contact scan finds close, and where a cell is after a
  step. Its names end in \<open>_fl\<close>.
\<close>

record constants =
  BOUNDS_WIDTH :: real
  BOUNDS_HEIGHT :: real
  MAX_X :: real
  MIN_X :: real
  MAX_Y :: real
  MIN_Y :: real
  CELL_RADIUS :: real
  VULNERABLE :: int
  INFECTED :: int
  IMMUNE :: int
  RECOVERY_PERIOD :: int

text \<open>
  Modelled from the spec: the values of the three health sentinels are missing with the
  constants module. The spec describes them as three mutually exclusive bands: a
  vulnerable sentinel, an infected counter that starts at the infection sentinel and
  counts upwards, and an immune sentinel. For the bands of \<^verbatim>\<open>is_vulnerable\<close>
  (\<open>==\<close>), \<^verbatim>\<open>is_infected\<close> (\<open>>=\<close>) and \<^verbatim>\<open>is_immune\<close> (\<open>==\<close>) to be disjoint,
  both other sentinels lie below the infection sentinel and differ from each other.
\<close>

definition sentinels_ok :: "constants \<Rightarrow> bool" where
  "sentinels_ok c =
     (VULNERABLE c < INFECTED c \<and> IMMUNE c < INFECTED c \<and> IMMUNE c \<noteq> VULNERABLE c)"

text \<open>
  Modelled from the spec: the world bounds are missing with the constants module. Each
  axis has a minimum and a maximum, the minimum not above the maximum.
\<close>

definition bounds_ok :: "constants \<Rightarrow> bool" where
  "bounds_ok c = (MIN_X c \<le> MAX_X c \<and> MIN_Y c \<le> MAX_Y c)"

text \<open>
  A sample configuration for the concrete evaluations below: a 400 by 400 world centred
  at the origin, contact radius 15, sentinels 0 (vulnerable), 1 (infected), -1 (immune)
  and a recovery period of 90 ticks.
\<close>

definition sample_constants :: constants where
  "sample_constants =
     \<lparr>BOUNDS_WIDTH = 400, BOUNDS_HEIGHT = 400,
      MAX_X = 200, MIN_X = - 200, MAX_Y = 200, MIN_Y = - 200,
      CELL_RADIUS = 15,
      VULNERABLE = 0, INFECTED = 1, IMMUNE = - 1, RECOVERY_PERIOD = 90\<rparr>"

section \<open>Point\<close>

record Point =
  x :: real
  y :: real

definition Point_add :: "Point \<Rightarrow> Point \<Rightarrow> Point" where
  "Point_add self other = \<lparr>x = x self + x other, y = y self + y other\<rparr>"

definition Point_distance :: "Point \<Rightarrow> Point \<Rightarrow> real" where
  "Point_distance self other = sqrt ((x other - x self)\<^sup>2 + (y other - y self)\<^sup>2)"

section \<open>Cell\<close>

text \<open>
  A cell owns its two points: the constructor of the model builds a fresh location and a
  fresh direction for every cell, \<^verbatim>\<open>Cell.tick\<close> replaces the location by a new point, and
  no method hands a point to another cell. So the points are fields of the cell's record,
  and a method that mutates the cell returns the new cell.
\<close>

record Cell =
  location :: Point
  direction :: Point
  sickness :: int

definition Cell_init :: "constants \<Rightarrow> Point \<Rightarrow> Point \<Rightarrow> Cell" where
  "Cell_init c loc dir = \<lparr>location = loc, direction = dir, sickness = VULNERABLE c\<rparr>"

definition contract_disease :: "constants \<Rightarrow> Cell \<Rightarrow> Cell" where
  "contract_disease c self = self\<lparr>sickness := INFECTED c\<rparr>"

definition immunize :: "constants \<Rightarrow> Cell \<Rightarrow> Cell" where
  "immunize c self = self\<lparr>sickness := IMMUNE c\<rparr>"

definition is_vulnerable :: "constants \<Rightarrow> Cell \<Rightarrow> bool" where
  "is_vulnerable c self = (if sickness self = VULNERABLE c then True else False)"

definition is_infected :: "constants \<Rightarrow> Cell \<Rightarrow> bool" where
  "is_infected c self = (if sickness self \<ge> INFECTED c then True else False)"

text \<open>
  \<^verbatim>\<open>is_immune\<close> has a \<^verbatim>\<open>return True\<close> under its \<^verbatim>\<open>if\<close> and no other return
  statement: when the test fails the method falls off its end and the caller receives
  Python's \<^verbatim>\<open>None\<close>. The result is therefore an optional boolean, \<open>None\<close> standing
  for \<^verbatim>\<open>None\<close>.
\<close>

definition is_immune :: "constants \<Rightarrow> Cell \<Rightarrow> bool option" where
  "is_immune c self = (if sickness self = IMMUNE c then Some True else None)"

text \<open>Python's truth value of what a method returned: \<^verbatim>\<open>None\<close> counts as false.\<close>

definition truthy :: "bool option \<Rightarrow> bool" where
  "truthy r = (case r of None \<Rightarrow> False | Some b \<Rightarrow> b)"

definition Cell_tick :: "constants \<Rightarrow> Cell \<Rightarrow> Cell" where
  "Cell_tick c self =
     (let s1 = self\<lparr>location := Point_add (location self) (direction self)\<rparr>;
          s2 = (if is_infected c s1 then s1\<lparr>sickness := sickness s1 + 1\<rparr> else s1)
      in if sickness s2 > RECOVERY_PERIOD c then immunize c s2 else s2)"

definition color :: "constants \<Rightarrow> Cell \<Rightarrow> string" where
  "color c self =
     (if is_vulnerable c self then ''gray''
      else if is_infected c self then ''red''
      else if truthy (is_immune c self) then ''green''
      else ''none'')"

text \<open>
  \<^verbatim>\<open>contact_with\<close> may mutate the receiver or the argument; the model returns both, the
  receiver first.
\<close>

definition contact_with :: "constants \<Rightarrow> Cell \<Rightarrow> Cell \<Rightarrow> Cell \<times> Cell" where
  "contact_with c self other =
     (if is_infected c self \<and> is_vulnerable c other then (self, contract_disease c other)
      else if is_infected c other \<and> is_vulnerable c self then (contract_disease c self, other)
      else (self, other))"

section \<open>Model\<close>

record Model =
  population :: "Cell list"
  time :: int

datatype error = ValueError string | OverflowError string

text \<open>
  \<^verbatim>\<open>random()\<close> is the only input of the model besides its arguments. The values it
  returns, in the order of the calls, are a parameter \<open>rnd\<close>; the number of calls made
  so far is threaded through the functions that draw.
\<close>

type_synonym rng = "nat \<Rightarrow> real"

definition random_location :: "constants \<Rightarrow> rng \<Rightarrow> nat \<Rightarrow> Point \<times> nat" where
  "random_location c rnd k =
     (let start_x = rnd k * BOUNDS_WIDTH c - MAX_X c;
          start_y = rnd (k + 1) * BOUNDS_HEIGHT c - MAX_Y c
      in (\<lparr>x = start_x, y = start_y\<rparr>, k + 2))"

definition random_direction :: "rng \<Rightarrow> nat \<Rightarrow> real \<Rightarrow> Point \<times> nat" where
  "random_direction rnd k speed =
     (let random_angle = 2 * pi * rnd k;
          direction_x = cos random_angle * speed;
          direction_y = sin random_angle * speed
      in (\<lparr>x = direction_x, y = direction_y\<rparr>, k + 1))"

text \<open>The body of the constructor's \<^verbatim>\<open>for i in range(0, cells)\<close>, for one \<open>i\<close>.\<close>

definition new_cell ::
  "constants \<Rightarrow> rng \<Rightarrow> real \<Rightarrow> int \<Rightarrow> int \<Rightarrow> int \<Rightarrow> nat \<Rightarrow> Cell \<times> nat" where
  "new_cell c rnd speed infected immune i k =
     (case random_location c rnd k of (start_location, k1) \<Rightarrow>
      case random_direction rnd k1 speed of (start_direction, k2) \<Rightarrow>
        (let cell = Cell_init c start_location start_direction
         in if i < infected then (contract_disease c cell, k2)
            else if i < immune + infected then (immunize c cell, k2)
            else (cell, k2)))"

function init_loop ::
  "constants \<Rightarrow> rng \<Rightarrow> real \<Rightarrow> int \<Rightarrow> int \<Rightarrow> int \<Rightarrow> int \<Rightarrow> nat \<Rightarrow> Cell list \<Rightarrow> Cell list" where
  "init_loop c rnd speed infected immune cells i k pop =
     (if i < cells
      then (case new_cell c rnd speed infected immune i k of (cell, k') \<Rightarrow>
              init_loop c rnd speed infected immune cells (i + 1) k' (pop @ [cell]))
      else pop)"
  by pat_completeness auto
termination
  by (relation "measure (\<lambda>(c, rnd, speed, infected, immune, cells, i, k, pop). nat (cells - i))")
    auto

declare init_loop.simps [simp del]

definition Model_init ::
  "constants \<Rightarrow> rng \<Rightarrow> int \<Rightarrow> real \<Rightarrow> int \<Rightarrow> int \<Rightarrow> error + Model" where
  "Model_init c rnd cells speed infected immune =
     (if infected \<ge> cells \<or> infected \<le> 0
      then Inl (ValueError ''Some number of the Cell objects must begin infected.'')
      else if immune \<ge> cells \<or> immune < 0
      then Inl (ValueError
        ''There is an improper number of immune or infected cells in the call.'')
      else if immune + infected \<ge> cells
      then Inl (ValueError ''Incorrect number of starting cells.'')
      else Inr \<lparr>population = init_loop c rnd speed infected immune cells 0 0 [], time = 0\<rparr>)"

text \<open>The four tests of \<^verbatim>\<open>enforce_bounds\<close> run one after the other on the same cell.\<close>

definition bounce_max_x :: "constants \<Rightarrow> Cell \<Rightarrow> Cell" where
  "bounce_max_x c cell =
     (if x (location cell) > MAX_X c
      then cell\<lparr>location := (location cell)\<lparr>x := MAX_X c\<rparr>,
                direction := (direction cell)\<lparr>x := x (direction cell) * (- 1)\<rparr>\<rparr>
      else cell)"

definition bounce_min_x :: "constants \<Rightarrow> Cell \<Rightarrow> Cell" where
  "bounce_min_x c cell =
     (if x (location cell) < MIN_X c
      then cell\<lparr>location := (location cell)\<lparr>x := MIN_X c\<rparr>,
                direction := (direction cell)\<lparr>x := x (direction cell) * (- 1)\<rparr>\<rparr>
      else cell)"

definition bounce_max_y :: "constants \<Rightarrow> Cell \<Rightarrow> Cell" where
  "bounce_max_y c cell =
     (if y (location cell) > MAX_Y c
      then cell\<lparr>location := (location cell)\<lparr>y := MAX_Y c\<rparr>,
                direction := (direction cell)\<lparr>y := y (direction cell) * (- 1)\<rparr>\<rparr>
      else cell)"

definition bounce_min_y :: "constants \<Rightarrow> Cell \<Rightarrow> Cell" where
  "bounce_min_y c cell =
     (if y (location cell) < MIN_Y c
      then cell\<lparr>location := (location cell)\<lparr>y := MIN_Y c\<rparr>,
                direction := (direction cell)\<lparr>y := y (direction cell) * (- 1)\<rparr>\<rparr>
      else cell)"

definition enforce_bounds :: "constants \<Rightarrow> Cell \<Rightarrow> Cell" where
  "enforce_bounds c cell = bounce_min_y c (bounce_max_y c (bounce_min_x c (bounce_max_x c cell)))"

text \<open>
  The inner loop of \<^verbatim>\<open>check_contacts\<close>: \<open>i2\<close> runs up to the length of the
  population, which the loop reads again at every test. \<^verbatim>\<open>contact_with\<close> mutates the
  two cells in place, so both are written back at their indices. Both indices are below
  the length whenever the list is read: \<open>i2\<close> by the test of this loop, \<open>i < i2\<close>
  by the outer loop.
\<close>

definition contact_at :: "constants \<Rightarrow> nat \<Rightarrow> nat \<Rightarrow> Cell list \<Rightarrow> Cell list" where
  "contact_at c i i2 pop =
     (if Point_distance (location (pop ! i2)) (location (pop ! i)) < CELL_RADIUS c
      then (case contact_with c (pop ! i) (pop ! i2) of
              (self, other) \<Rightarrow> pop[i := self, i2 := other])
      else pop)"

lemma length_contact_at: "length (contact_at c i i2 pop) = length pop"
  by (simp add: contact_at_def split: prod.split)

function check_contacts_inner :: "constants \<Rightarrow> nat \<Rightarrow> nat \<Rightarrow> Cell list \<Rightarrow> Cell list" where
  "check_contacts_inner c i i2 pop =
     (if i2 < length pop
      then check_contacts_inner c i (i2 + 1) (contact_at c i i2 pop)
      else pop)"
  by pat_completeness auto
termination
  by (relation "measure (\<lambda>(c, i, i2, pop). length pop - i2)")
    (auto simp: length_contact_at)

declare check_contacts_inner.simps [simp del]

lemma length_check_contacts_inner: "length (check_contacts_inner c i i2 pop) = length pop"
  by (induction c i i2 pop rule: check_contacts_inner.induct)
    (subst check_contacts_inner.simps, simp add: length_contact_at)

function check_contacts_outer :: "constants \<Rightarrow> nat \<Rightarrow> Cell list \<Rightarrow> Cell list" where
  "check_contacts_outer c i pop =
     (if i < length pop
      then check_contacts_outer c (i + 1) (check_contacts_inner c i (i + 1) pop)
      else pop)"
  by pat_completeness auto
termination
  by (relation "measure (\<lambda>(c, i, pop). length pop - i)")
    (auto simp: length_check_contacts_inner)

declare check_contacts_outer.simps [simp del]

definition check_contacts :: "constants \<Rightarrow> Model \<Rightarrow> Model" where
  "check_contacts c m = m\<lparr>population := check_contacts_outer c 0 (population m)\<rparr>"

text \<open>The \<^verbatim>\<open>for cell in self.population\<close> loop of \<^verbatim>\<open>Model.tick\<close>.\<close>

fun move_cells :: "constants \<Rightarrow> Cell list \<Rightarrow> Cell list" where
  "move_cells c [] = []"
| "move_cells c (cell # cells) = enforce_bounds c (Cell_tick c cell) # move_cells c cells"

definition Model_tick :: "constants \<Rightarrow> Model \<Rightarrow> Model" where
  "Model_tick c m =
     (let m1 = m\<lparr>time := time m + 1\<rparr>;
          m2 = m1\<lparr>population := move_cells c (population m1)\<rparr>
      in check_contacts c m2)"

text \<open>
  \<^verbatim>\<open>is_complete\<close> walks the population by index and returns at the first infected
  cell; the cells from the current index on are the list the recursion is given.
\<close>

fun is_complete_from :: "constants \<Rightarrow> Cell list \<Rightarrow> bool" where
  "is_complete_from c [] = True"
| "is_complete_from c (cell # cells) =
     (if is_infected c cell then False else is_complete_from c cells)"

definition is_complete :: "constants \<Rightarrow> Model \<Rightarrow> bool" where
  "is_complete c m = is_complete_from c (population m)"

section \<open>Python floats\<close>

text \<open>
  A Python float is an IEEE 754 binary64 value: a finite number, one of the two
  infinities, or NaN. A finite value is kept as the real number it denotes. The sign of
  a zero is dropped: the program adds, subtracts, multiplies, squares, takes square roots
  and compares, and none of these lets a comparison tell \<^verbatim>\<open>-0.0\<close> from \<^verbatim>\<open>0.0\<close>.
\<close>

datatype pyfloat = Fin real | PInf | NInf | NaN

text \<open>
  Rounding to the nearest double, ties to the even significand: the exponent of the last
  place is 52 below the exponent of the value and not below -1074 (the subnormal range);
  a result of magnitude \<open>2 ^ 1024\<close> or more is an infinity.
\<close>

definition round_half_even :: "real \<Rightarrow> int" where
  "round_half_even r =
     (let f = \<lfloor>r\<rfloor>
      in if r - of_int f < 1 / 2 then f
         else if 1 / 2 < r - of_int f then f + 1
         else if even f then f else f + 1)"

definition to_double :: "real \<Rightarrow> pyfloat" where
  "to_double r =
     (if r = 0 then Fin 0
      else let e = max (\<lfloor>log 2 \<bar>r\<bar>\<rfloor> - 52) (- 1074);
               v = of_int (round_half_even (r / 2 powi e)) * 2 powi e
           in if 2 ^ 1024 \<le> \<bar>v\<bar> then (if 0 < r then PInf else NInf) else Fin v)"

text \<open>
  The arithmetic of the machine: the exact result, rounded; NaN in, NaN out; the usual
  results for infinities. A comparison with a NaN is false.
\<close>

fun fneg :: "pyfloat \<Rightarrow> pyfloat" where
  "fneg (Fin u) = Fin (- u)"
| "fneg PInf = NInf"
| "fneg NInf = PInf"
| "fneg NaN = NaN"

fun fadd :: "pyfloat \<Rightarrow> pyfloat \<Rightarrow> pyfloat" where
  "fadd (Fin u) (Fin v) = to_double (u + v)"
| "fadd NaN b = NaN"
| "fadd a NaN = NaN"
| "fadd PInf NInf = NaN"
| "fadd NInf PInf = NaN"
| "fadd PInf b = PInf"
| "fadd a PInf = PInf"
| "fadd NInf b = NInf"
| "fadd a NInf = NInf"

definition fsub :: "pyfloat \<Rightarrow> pyfloat \<Rightarrow> pyfloat" where
  "fsub a b = fadd a (fneg b)"

text \<open>An infinity times a finite value: NaN for zero, else the sign decides.\<close>

definition inf_times :: "pyfloat \<Rightarrow> real \<Rightarrow> pyfloat" where
  "inf_times a v = (if v = 0 then NaN else if 0 < v then a else fneg a)"

fun fmul :: "pyfloat \<Rightarrow> pyfloat \<Rightarrow> pyfloat" where
  "fmul (Fin u) (Fin v) = to_double (u * v)"
| "fmul NaN b = NaN"
| "fmul a NaN = NaN"
| "fmul (Fin u) b = inf_times b u"
| "fmul a (Fin v) = inf_times a v"
| "fmul PInf b = b"
| "fmul NInf b = fneg b"

fun flt :: "pyfloat \<Rightarrow> pyfloat \<Rightarrow> bool" where
  "flt (Fin u) (Fin v) = (u < v)"
| "flt NaN b = False"
| "flt a NaN = False"
| "flt a NInf = False"
| "flt PInf b = False"
| "flt a b = True"

definition fgt :: "pyfloat \<Rightarrow> pyfloat \<Rightarrow> bool" where
  "fgt a b = flt b a"

fun fle :: "pyfloat \<Rightarrow> pyfloat \<Rightarrow> bool" where
  "fle (Fin u) (Fin v) = (u \<le> v)"
| "fle NaN b = False"
| "fle a NaN = False"
| "fle NInf b = True"
| "fle a PInf = True"
| "fle a b = False"

text \<open>
  \<^verbatim>\<open>x ** 2\<close> is the square, rounded, and raises \<^verbatim>\<open>OverflowError\<close> when the square
  of a finite value overflows (an underflow is not an error); \<^verbatim>\<open>math.sqrt\<close>,
  \<^verbatim>\<open>math.cos\<close> and \<^verbatim>\<open>math.sin\<close> raise \<^verbatim>\<open>ValueError\<close> outside their domain. The
  square root is correctly rounded by IEEE 754. The power, the cosine and the sine come
  from the C library and are taken as correctly rounded; the library may differ from
  that in the last place where the exact result is close to the middle between two
  doubles. Nothing below depends on the value of a cosine or a sine, and the one square
  that is evaluated below lies a quarter of a unit in the last place from the double it
  rounds to. \<open>pi_double\<close> is \<^verbatim>\<open>math.pi\<close>, \<^verbatim>\<open>0x1.921fb54442d18p+1\<close>.
\<close>

definition fpow2 :: "pyfloat \<Rightarrow> error + pyfloat" where
  "fpow2 a =
     (case a of
        Fin u \<Rightarrow>
          (case to_double (u * u) of
             PInf \<Rightarrow> Inl (OverflowError ''(34, 'Numerical result out of range')'')
           | r \<Rightarrow> Inr r)
      | PInf \<Rightarrow> Inr PInf
      | NInf \<Rightarrow> Inr PInf
      | NaN \<Rightarrow> Inr NaN)"

definition fsqrt :: "pyfloat \<Rightarrow> error + pyfloat" where
  "fsqrt a =
     (case a of
        Fin u \<Rightarrow> if u < 0 then Inl (ValueError ''math domain error'') else Inr (to_double (sqrt u))
      | PInf \<Rightarrow> Inr PInf
      | NInf \<Rightarrow> Inl (ValueError ''math domain error'')
      | NaN \<Rightarrow> Inr NaN)"

definition fcos :: "pyfloat \<Rightarrow> error + pyfloat" where
  "fcos a =
     (case a of
        Fin u \<Rightarrow> Inr (to_double (cos u))
      | NaN \<Rightarrow> Inr NaN
      | _ \<Rightarrow> Inl (ValueError ''math domain error''))"

definition fsin :: "pyfloat \<Rightarrow> error + pyfloat" where
  "fsin a =
     (case a of
        Fin u \<Rightarrow> Inr (to_double (sin u))
      | NaN \<Rightarrow> Inr NaN
      | _ \<Rightarrow> Inl (ValueError ''math domain error''))"

definition pi_double :: real where
  "pi_double = 884279719003555 / 2 ^ 48"

definition fpi :: pyfloat where
  "fpi = Fin pi_double"

section \<open>The model on Python floats\<close>

text \<open>
  The same source, with every float a double. \<^verbatim>\<open>Point.distance\<close> can raise, so
  \<^verbatim>\<open>check_contacts\<close> and \<^verbatim>\<open>Model.tick\<close> can: they mutate the model in place, and what
  they return here is the exception, if one was raised, together with the model as the
  call leaves it. The constants are finite doubles.
\<close>

record Point_fl =
  x_fl :: pyfloat
  y_fl :: pyfloat

definition Point_add_fl :: "Point_fl \<Rightarrow> Point_fl \<Rightarrow> Point_fl" where
  "Point_add_fl self other =
     \<lparr>x_fl = fadd (x_fl self) (x_fl other), y_fl = fadd (y_fl self) (y_fl other)\<rparr>"

definition Point_distance_fl :: "Point_fl \<Rightarrow> Point_fl \<Rightarrow> error + pyfloat" where
  "Point_distance_fl self other =
     (case fpow2 (fsub (x_fl other) (x_fl self)) of
        Inl e \<Rightarrow> Inl e
      | Inr dx2 \<Rightarrow>
          (case fpow2 (fsub (y_fl other) (y_fl self)) of
             Inl e \<Rightarrow> Inl e
           | Inr dy2 \<Rightarrow> fsqrt (fadd dx2 dy2)))"

record Cell_fl =
  location_fl :: Point_fl
  direction_fl :: Point_fl
  sickness_fl :: int

definition Cell_init_fl :: "constants \<Rightarrow> Point_fl \<Rightarrow> Point_fl \<Rightarrow> Cell_fl" where
  "Cell_init_fl c loc dir = \<lparr>location_fl = loc, direction_fl = dir, sickness_fl = VULNERABLE c\<rparr>"

definition contract_disease_fl :: "constants \<Rightarrow> Cell_fl \<Rightarrow> Cell_fl" where
  "contract_disease_fl c self = self\<lparr>sickness_fl := INFECTED c\<rparr>"

definition immunize_fl :: "constants \<Rightarrow> Cell_fl \<Rightarrow> Cell_fl" where
  "immunize_fl c self = self\<lparr>sickness_fl := IMMUNE c\<rparr>"

definition is_vulnerable_fl :: "constants \<Rightarrow> Cell_fl \<Rightarrow> bool" where
  "is_vulnerable_fl c self = (if sickness_fl self = VULNERABLE c then True else False)"

definition is_infected_fl :: "constants \<Rightarrow> Cell_fl \<Rightarrow> bool" where
  "is_infected_fl c self = (if sickness_fl self \<ge> INFECTED c then True else False)"

definition Cell_tick_fl :: "constants \<Rightarrow> Cell_fl \<Rightarrow> Cell_fl" where
  "Cell_tick_fl c self =
     (let s1 = self\<lparr>location_fl := Point_add_fl (location_fl self) (direction_fl self)\<rparr>;
          s2 = (if is_infected_fl c s1 then s1\<lparr>sickness_fl := sickness_fl s1 + 1\<rparr> else s1)
      in if sickness_fl s2 > RECOVERY_PERIOD c then immunize_fl c s2 else s2)"

definition contact_with_fl :: "constants \<Rightarrow> Cell_fl \<Rightarrow> Cell_fl \<Rightarrow> Cell_fl \<times> Cell_fl" where
  "contact_with_fl c self other =
     (if is_infected_fl c self \<and> is_vulnerable_fl c other
      then (self, contract_disease_fl c other)
      else if is_infected_fl c other \<and> is_vulnerable_fl c self
      then (contract_disease_fl c self, other)
      else (self, other))"

record Model_fl =
  population_fl :: "Cell_fl list"
  time_fl :: int

definition random_location_fl :: "constants \<Rightarrow> rng \<Rightarrow> nat \<Rightarrow> Point_fl \<times> nat" where
  "random_location_fl c rnd k =
     (let start_x = fsub (fmul (Fin (rnd k)) (Fin (BOUNDS_WIDTH c))) (Fin (MAX_X c));
          start_y = fsub (fmul (Fin (rnd (k + 1))) (Fin (BOUNDS_HEIGHT c))) (Fin (MAX_Y c))
      in (\<lparr>x_fl = start_x, y_fl = start_y\<rparr>, k + 2))"

definition random_direction_fl :: "rng \<Rightarrow> nat \<Rightarrow> pyfloat \<Rightarrow> error + Point_fl \<times> nat" where
  "random_direction_fl rnd k speed =
     (let random_angle = fmul (fmul (Fin 2) fpi) (Fin (rnd k))
      in case fcos random_angle of
           Inl e \<Rightarrow> Inl e
         | Inr cos_angle \<Rightarrow>
             (let direction_x = fmul cos_angle speed
              in case fsin random_angle of
                   Inl e \<Rightarrow> Inl e
                 | Inr sin_angle \<Rightarrow>
                     (let direction_y = fmul sin_angle speed
                      in Inr (\<lparr>x_fl = direction_x, y_fl = direction_y\<rparr>, k + 1))))"

definition new_cell_fl ::
  "constants \<Rightarrow> rng \<Rightarrow> pyfloat \<Rightarrow> int \<Rightarrow> int \<Rightarrow> int \<Rightarrow> nat \<Rightarrow> error + Cell_fl \<times> nat" where
  "new_cell_fl c rnd speed infected immune i k =
     (case random_location_fl c rnd k of (start_location, k1) \<Rightarrow>
      case random_direction_fl rnd k1 speed of
        Inl e \<Rightarrow> Inl e
      | Inr (start_direction, k2) \<Rightarrow>
          (let cell = Cell_init_fl c start_location start_direction
           in if i < infected then Inr (contract_disease_fl c cell, k2)
              else if i < immune + infected then Inr (immunize_fl c cell, k2)
              else Inr (cell, k2)))"

function init_loop_fl ::
  "constants \<Rightarrow> rng \<Rightarrow> pyfloat \<Rightarrow> int \<Rightarrow> int \<Rightarrow> int \<Rightarrow> int \<Rightarrow> nat \<Rightarrow> Cell_fl list \<Rightarrow>
   error + Cell_fl list" where
  "init_loop_fl c rnd speed infected immune cells i k pop =
     (if i < cells
      then (case new_cell_fl c rnd speed infected immune i k of
              Inl e \<Rightarrow> Inl e
            | Inr (cell, k') \<Rightarrow>
                init_loop_fl c rnd speed infected immune cells (i + 1) k' (pop @ [cell]))
      else Inr pop)"
  by pat_completeness auto
termination
  by (relation "measure (\<lambda>(c, rnd, speed, infected, immune, cells, i, k, pop). nat (cells - i))")
    auto

declare init_loop_fl.simps [simp del]

definition Model_init_fl ::
  "constants \<Rightarrow> rng \<Rightarrow> int \<Rightarrow> pyfloat \<Rightarrow> int \<Rightarrow> int \<Rightarrow> error + Model_fl" where
  "Model_init_fl c rnd cells speed infected immune =
     (if infected \<ge> cells \<or> infected \<le> 0
      then Inl (ValueError ''Some number of the Cell objects must begin infected.'')
      else if immune \<ge> cells \<or> immune < 0
      then Inl (ValueError
        ''There is an improper number of immune or infected cells in the call.'')
      else if immune + infected \<ge> cells
      then Inl (ValueError ''Incorrect number of starting cells.'')
      else (case init_loop_fl c rnd speed infected immune cells 0 0 [] of
              Inl e \<Rightarrow> Inl e
            | Inr pop \<Rightarrow> Inr \<lparr>population_fl = pop, time_fl = 0\<rparr>))"

definition bounce_max_x_fl :: "constants \<Rightarrow> Cell_fl \<Rightarrow> Cell_fl" where
  "bounce_max_x_fl c cell =
     (if fgt (x_fl (location_fl cell)) (Fin (MAX_X c))
      then cell\<lparr>location_fl := (location_fl cell)\<lparr>x_fl := Fin (MAX_X c)\<rparr>,
                direction_fl := (direction_fl cell)\<lparr>x_fl := fmul (x_fl (direction_fl cell)) (Fin (- 1))\<rparr>\<rparr>
      else cell)"

definition bounce_min_x_fl :: "constants \<Rightarrow> Cell_fl \<Rightarrow> Cell_fl" where
  "bounce_min_x_fl c cell =
     (if flt (x_fl (location_fl cell)) (Fin (MIN_X c))
      then cell\<lparr>location_fl := (location_fl cell)\<lparr>x_fl := Fin (MIN_X c)\<rparr>,
                direction_fl := (direction_fl cell)\<lparr>x_fl := fmul (x_fl (direction_fl cell)) (Fin (- 1))\<rparr>\<rparr>
      else cell)"

definition bounce_max_y_fl :: "constants \<Rightarrow> Cell_fl \<Rightarrow> Cell_fl" where
  "bounce_max_y_fl c cell =
     (if fgt (y_fl (location_fl cell)) (Fin (MAX_Y c))
      then cell\<lparr>location_fl := (location_fl cell)\<lparr>y_fl := Fin (MAX_Y c)\<rparr>,
                direction_fl := (direction_fl cell)\<lparr>y_fl := fmul (y_fl (direction_fl cell)) (Fin (- 1))\<rparr>\<rparr>
      else cell)"

definition bounce_min_y_fl :: "constants \<Rightarrow> Cell_fl \<Rightarrow> Cell_fl" where
  "bounce_min_y_fl c cell =
     (if flt (y_fl (location_fl cell)) (Fin (MIN_Y c))
      then cell\<lparr>location_fl := (location_fl cell)\<lparr>y_fl := Fin (MIN_Y c)\<rparr>,
                direction_fl := (direction_fl cell)\<lparr>y_fl := fmul (y_fl (direction_fl cell)) (Fin (- 1))\<rparr>\<rparr>
      else cell)"

definition enforce_bounds_fl :: "constants \<Rightarrow> Cell_fl \<Rightarrow> Cell_fl" where
  "enforce_bounds_fl c cell =
     bounce_min_y_fl c (bounce_max_y_fl c (bounce_min_x_fl c (bounce_max_x_fl c cell)))"

definition contact_at_fl :: "constants \<Rightarrow> nat \<Rightarrow> nat \<Rightarrow> Cell_fl list \<Rightarrow> error + Cell_fl list" where
  "contact_at_fl c i i2 pop =
     (case Point_distance_fl (location_fl (pop ! i2)) (location_fl (pop ! i)) of
        Inl e \<Rightarrow> Inl e
      | Inr d \<Rightarrow>
          if flt d (Fin (CELL_RADIUS c))
          then (case contact_with_fl c (pop ! i) (pop ! i2) of
                  (self, other) \<Rightarrow> Inr (pop[i := self, i2 := other]))
          else Inr pop)"

lemma length_contact_at_fl: "contact_at_fl c i i2 pop = Inr pop' \<Longrightarrow> length pop' = length pop"
  by (auto simp: contact_at_fl_def split: sum.splits if_splits prod.splits)

function check_contacts_inner_fl ::
  "constants \<Rightarrow> nat \<Rightarrow> nat \<Rightarrow> Cell_fl list \<Rightarrow> error option \<times> Cell_fl list" where
  "check_contacts_inner_fl c i i2 pop =
     (if i2 < length pop
      then (case contact_at_fl c i i2 pop of
              Inl e \<Rightarrow> (Some e, pop)
            | Inr pop' \<Rightarrow> check_contacts_inner_fl c i (i2 + 1) pop')
      else (None, pop))"
  by pat_completeness auto
termination
  by (relation "measure (\<lambda>(c, i, i2, pop). length pop - i2)")
    (auto dest: length_contact_at_fl)

declare check_contacts_inner_fl.simps [simp del]

lemma length_check_contacts_inner_fl:
  "length (snd (check_contacts_inner_fl c i i2 pop)) = length pop"
proof (induction c i i2 pop rule: check_contacts_inner_fl.induct)
  case (1 c i i2 pop)
  show ?case
  proof (cases "i2 < length pop")
    case False
    then show ?thesis by (subst check_contacts_inner_fl.simps) simp
  next
    case True
    show ?thesis
    proof (cases "contact_at_fl c i i2 pop")
      case (Inl e)
      with True show ?thesis by (subst check_contacts_inner_fl.simps) simp
    next
      case (Inr pop')
      with True "1.IH" [OF True Inr] length_contact_at_fl [OF Inr] show ?thesis
        by (subst check_contacts_inner_fl.simps) simp
    qed
  qed
qed

function check_contacts_outer_fl ::
  "constants \<Rightarrow> nat \<Rightarrow> Cell_fl list \<Rightarrow> error option \<times> Cell_fl list" where
  "check_contacts_outer_fl c i pop =
     (if i < length pop
      then (case check_contacts_inner_fl c i (i + 1) pop of
              (Some e, pop') \<Rightarrow> (Some e, pop')
            | (None, pop') \<Rightarrow> check_contacts_outer_fl c (i + 1) pop')
      else (None, pop))"
  by pat_completeness auto
termination
proof (relation "measure (\<lambda>(c, i, pop). length pop - i)")
  show "wf (measure (\<lambda>(c, i, pop). length pop - i))"
    by simp
next
  fix c :: constants and i :: nat and pop x1 and pop' :: "Cell_fl list"
  assume "i < length pop" and res: "(x1, pop') = check_contacts_inner_fl c i (i + 1) pop"
  have "length pop' = length pop"
    using length_check_contacts_inner_fl [of c i "i + 1" pop] res [symmetric] by simp
  with \<open>i < length pop\<close> show "((c, i + 1, pop'), c, i, pop) \<in> measure (\<lambda>(c, i, pop). length pop - i)"
    by simp
qed

declare check_contacts_outer_fl.simps [simp del]

fun move_cells_fl :: "constants \<Rightarrow> Cell_fl list \<Rightarrow> Cell_fl list" where
  "move_cells_fl c [] = []"
| "move_cells_fl c (cell # cells) =
     enforce_bounds_fl c (Cell_tick_fl c cell) # move_cells_fl c cells"

definition Model_tick_fl :: "constants \<Rightarrow> Model_fl \<Rightarrow> error option \<times> Model_fl" where
  "Model_tick_fl c m =
     (let m1 = m\<lparr>time_fl := time_fl m + 1\<rparr>;
          m2 = m1\<lparr>population_fl := move_cells_fl c (population_fl m1)\<rparr>
      in case check_contacts_outer_fl c 0 (population_fl m2) of
           (raised, pop) \<Rightarrow> (raised, m2\<lparr>population_fl := pop\<rparr>))"

section \<open>What is observed of a model\<close>

text \<open>
  The counts of the population: how many cells there are, and of how many each of the
  three health predicates is true.
\<close>

definition population_size :: "Model \<Rightarrow> int" where
  "population_size m = int (length (population m))"

definition infected_count :: "constants \<Rightarrow> Model \<Rightarrow> int" where
  "infected_count c m = int (length (filter (is_infected c) (population m)))"

definition immune_count :: "constants \<Rightarrow> Model \<Rightarrow> int" where
  "immune_count c m = int (length (filter (\<lambda>cell. is_immune c cell = Some True) (population m)))"

definition vulnerable_count :: "constants \<Rightarrow> Model \<Rightarrow> int" where
  "vulnerable_count c m = int (length (filter (is_vulnerable c) (population m)))"

text \<open>
  On doubles: a value that is finite; a point within the world bounds (a comparison with
  NaN is false, so a NaN coordinate is not within them); a cell whose location is finite
  and whose direction has no NaN component; the model after \<open>n\<close> calls of
  \<^verbatim>\<open>Model.tick\<close>, raised or not; and the location and direction of a cell.
\<close>

fun is_finite :: "pyfloat \<Rightarrow> bool" where
  "is_finite (Fin u) = True"
| "is_finite a = False"

definition in_bounds_fl :: "constants \<Rightarrow> Point_fl \<Rightarrow> bool" where
  "in_bounds_fl c p =
     (fle (Fin (MIN_X c)) (x_fl p) \<and> fle (x_fl p) (Fin (MAX_X c)) \<and>
      fle (Fin (MIN_Y c)) (y_fl p) \<and> fle (y_fl p) (Fin (MAX_Y c)))"

definition steady :: "Cell_fl \<Rightarrow> bool" where
  "steady cell =
     (is_finite (x_fl (location_fl cell)) \<and> is_finite (y_fl (location_fl cell)) \<and>
      x_fl (direction_fl cell) \<noteq> NaN \<and> y_fl (direction_fl cell) \<noteq> NaN)"

definition after_ticks :: "constants \<Rightarrow> nat \<Rightarrow> Model_fl \<Rightarrow> Model_fl" where
  "after_ticks c n m = ((\<lambda>m. snd (Model_tick_fl c m)) ^^ n) m"

definition motion :: "Cell_fl \<Rightarrow> Point_fl \<times> Point_fl" where
  "motion cell = (location_fl cell, direction_fl cell)"

text \<open>
  Constants of moderate size, and draws as \<^verbatim>\<open>random()\<close> returns them, in \<open>[0, 1)\<close>.
\<close>

definition moderate :: "constants \<Rightarrow> bool" where
  "moderate c =
     (\<bar>BOUNDS_WIDTH c\<bar> \<le> 2 ^ 400 \<and> \<bar>BOUNDS_HEIGHT c\<bar> \<le> 2 ^ 400 \<and>
      \<bar>MAX_X c\<bar> \<le> 2 ^ 400 \<and> \<bar>MAX_Y c\<bar> \<le> 2 ^ 400)"

definition unit_draws :: "rng \<Rightarrow> bool" where
  "unit_draws rnd = (\<forall>k. 0 \<le> rnd k \<and> rnd k < 1)"

text \<open>The sickness the constructor gives to the cell it creates at index \<open>i\<close>.\<close>

definition seed :: "constants \<Rightarrow> int \<Rightarrow> int \<Rightarrow> int \<Rightarrow> int" where
  "seed c infected immune i =
     (if i < infected then INFECTED c
      else if i < immune + infected then IMMUNE c else VULNERABLE c)"

section \<open>The step as the specification describes it\<close>

text \<open>
  The specification of \<^verbatim>\<open>Model.tick\<close>, in its words: the time is incremented; every
  cell, in population order, is advanced by its own \<^verbatim>\<open>tick\<close> and then put back within
  the bounds; after all cells have moved, one scan goes through the index pairs
  \<open>(i, j)\<close> with \<open>i < j\<close>, in ascending order, and calls \<^verbatim>\<open>contact_with\<close> on the
  two cells when the distance between their locations is less than \<^verbatim>\<open>CELL_RADIUS\<close>.

  For the idealised embedding this form of the step serves to count the population: it
  shows at once that a step keeps the number of cells.
\<close>

definition index_pairs :: "nat \<Rightarrow> (nat \<times> nat) list" where
  "index_pairs n = concat (map (\<lambda>i. map (Pair i) [i + 1..<n]) [0..<n])"

definition contact_if_close :: "constants \<Rightarrow> nat \<times> nat \<Rightarrow> Cell list \<Rightarrow> Cell list" where
  "contact_if_close c ij pop =
     (case ij of (i, j) \<Rightarrow>
        if Point_distance (location (pop ! i)) (location (pop ! j)) < CELL_RADIUS c
        then (case contact_with c (pop ! i) (pop ! j) of (a, b) \<Rightarrow> pop[i := a, j := b])
        else pop)"

definition tick_spec :: "constants \<Rightarrow> Model \<Rightarrow> Model" where
  "tick_spec c m =
     (let moved = map (\<lambda>cell. enforce_bounds c (Cell_tick c cell)) (population m)
      in \<lparr>population = fold (contact_if_close c) (index_pairs (length moved)) moved,
          time = time m + 1\<rparr>)"

text \<open>
  The same step on doubles. The distance is written out in the operations of the
  machine: the two differences, their squares, the sum and the square root, each rounded
  to a double; a square that overflows raises, and the scan stops there, leaving the
  population as the pairs before have made it.
\<close>

definition computed_distance :: "Point_fl \<Rightarrow> Point_fl \<Rightarrow> error + pyfloat" where
  "computed_distance p q =
     (case fpow2 (fsub (x_fl p) (x_fl q)) of
        Inl e \<Rightarrow> Inl e
      | Inr dx2 \<Rightarrow>
          (case fpow2 (fsub (y_fl p) (y_fl q)) of
             Inl e \<Rightarrow> Inl e
           | Inr dy2 \<Rightarrow> fsqrt (fadd dx2 dy2)))"

definition contact_pair :: "constants \<Rightarrow> nat \<Rightarrow> nat \<Rightarrow> Cell_fl list \<Rightarrow> Cell_fl list" where
  "contact_pair c i j pop =
     (case contact_with_fl c (pop ! i) (pop ! j) of (a, b) \<Rightarrow> pop[i := a, j := b])"

fun scan_pairs ::
  "constants \<Rightarrow> (nat \<times> nat) list \<Rightarrow> Cell_fl list \<Rightarrow> error option \<times> Cell_fl list" where
  "scan_pairs c [] pop = (None, pop)"
| "scan_pairs c ((i, j) # ps) pop =
     (case computed_distance (location_fl (pop ! i)) (location_fl (pop ! j)) of
        Inl e \<Rightarrow> (Some e, pop)
      | Inr d \<Rightarrow>
          scan_pairs c ps (if flt d (Fin (CELL_RADIUS c)) then contact_pair c i j pop else pop))"

definition tick_spec_fl :: "constants \<Rightarrow> Model_fl \<Rightarrow> error option \<times> Model_fl" where
  "tick_spec_fl c m =
     (let moved = map (\<lambda>cell. enforce_bounds_fl c (Cell_tick_fl c cell)) (population_fl m)
      in case scan_pairs c (index_pairs (length moved)) moved of
           (raised, pop) \<Rightarrow> (raised, \<lparr>population_fl = pop, time_fl = time_fl m + 1\<rparr>))"

section \<open>The operations a cell undergoes\<close>

text \<open>
  After its construction a cell is touched by four calls only, all made by
  \<^verbatim>\<open>Model.tick\<close>: its own \<^verbatim>\<open>tick\<close>, \<^verbatim>\<open>enforce_bounds\<close>, and \<^verbatim>\<open>contact_with\<close> with
  the cell as the receiver or as the argument. A history of a cell is a list of these.
\<close>

datatype cell_op = Tick | Bounds | ContactWith Cell | ContactFrom Cell

fun apply_op :: "constants \<Rightarrow> cell_op \<Rightarrow> Cell \<Rightarrow> Cell" where
  "apply_op c Tick cell = Cell_tick c cell"
| "apply_op c Bounds cell = enforce_bounds c cell"
| "apply_op c (ContactWith other) cell = fst (contact_with c cell other)"
| "apply_op c (ContactFrom other) cell = snd (contact_with c other cell)"

definition run_ops :: "constants \<Rightarrow> cell_op list \<Rightarrow> Cell \<Rightarrow> Cell" where
  "run_ops c ops cell = fold (apply_op c) ops cell"

text \<open>The number of \<^verbatim>\<open>Cell.tick\<close> calls in a history.\<close>

fun ticks :: "cell_op list \<Rightarrow> nat" where
  "ticks [] = 0"
| "ticks (Tick # ops) = Suc (ticks ops)"
| "ticks (op # ops) = ticks ops"

section \<open>Sample inputs\<close>

definition fresh_cell :: Cell where
  "fresh_cell = Cell_init sample_constants \<lparr>x = 0, y = 0\<rparr> \<lparr>x = 1, y = 0\<rparr>"

definition infected_cell :: Cell where
  "infected_cell = contract_disease sample_constants fresh_cell"

definition immune_cell :: Cell where
  "immune_cell = immunize sample_constants fresh_cell"

definition corner_cell :: Cell where
  "corner_cell = \<lparr>location = \<lparr>x = 205, y = - 203\<rparr>, direction = \<lparr>x = 2, y = - 1\<rparr>, sickness = 0\<rparr>"

text \<open>
  The values of \<^verbatim>\<open>random()\<close> for the sample models: 0.5, 0.501, 0.502 and so on.
\<close>

definition sample_rnd :: rng where
  "sample_rnd k = 1 / 2 + real k / 1000"

text \<open>
  The model that \<^verbatim>\<open>Model(10, 1.0, 3, 2)\<close> builds, the model that \<^verbatim>\<open>Model(2, 0.0, 1)\<close>
  builds (two cells that do not move, less than two units apart).
\<close>

definition seeded_model :: Model where
  "seeded_model =
     \<lparr>population = init_loop sample_constants sample_rnd 1 3 2 10 0 0 [], time = 0\<rparr>"

definition pair_model :: Model where
  "pair_model =
     \<lparr>population =
        [\<lparr>location = \<lparr>x = 0, y = 2 / 5\<rparr>, direction = \<lparr>x = 0, y = 0\<rparr>, sickness = 1\<rparr>,
         \<lparr>location = \<lparr>x = 6 / 5, y = 8 / 5\<rparr>, direction = \<lparr>x = 0, y = 0\<rparr>, sickness = 0\<rparr>],
      time = 0\<rparr>"



definition half_rnd :: rng where
  "half_rnd k = 1 / 2"

definition nan_model :: Model_fl where
  "nan_model =
     \<lparr>population_fl =
        [\<lparr>location_fl = \<lparr>x_fl = Fin 0, y_fl = Fin 0\<rparr>,
          direction_fl = \<lparr>x_fl = NaN, y_fl = NaN\<rparr>, sickness_fl = 1\<rparr>,
         \<lparr>location_fl = \<lparr>x_fl = Fin 0, y_fl = Fin 0\<rparr>,
          direction_fl = \<lparr>x_fl = NaN, y_fl = NaN\<rparr>, sickness_fl = 0\<rparr>],
      time_fl = 0\<rparr>"

definition fast_model_fl :: Model_fl where
  "fast_model_fl =
     \<lparr>population_fl =
        [\<lparr>location_fl = \<lparr>x_fl = Fin 150, y_fl = Fin 0\<rparr>,
          direction_fl = \<lparr>x_fl = PInf, y_fl = NInf\<rparr>, sickness_fl = 1\<rparr>,
         \<lparr>location_fl = \<lparr>x_fl = Fin (- 150), y_fl = Fin 10\<rparr>,
          direction_fl = \<lparr>x_fl = Fin (- (2 ^ 600)), y_fl = Fin (2 ^ 600)\<rparr>, sickness_fl = 0\<rparr>],
      time_fl = 0\<rparr>"

section \<open>Facts about the sample inputs\<close>

lemma sentinels_ok_sample: "sentinels_ok sample_constants"
  by (simp add: sentinels_ok_def sample_constants_def)

lemma bounds_ok_sample: "bounds_ok sample_constants"
  by (simp add: bounds_ok_def sample_constants_def)

lemma sample_health:
  "is_vulnerable sample_constants fresh_cell"
  "is_infected sample_constants infected_cell"
  "is_immune sample_constants immune_cell = Some True"
  by (simp_all add: fresh_cell_def infected_cell_def immune_cell_def Cell_init_def
      contract_disease_def immunize_def is_vulnerable_def is_infected_def is_immune_def
      sample_constants_def)

section \<open>Health predicates\<close>

lemma is_infected_sickness: "is_infected c cell = (INFECTED c \<le> sickness cell)"
  by (simp add: is_infected_def)

lemma is_vulnerable_sickness: "is_vulnerable c cell = (sickness cell = VULNERABLE c)"
  by (simp add: is_vulnerable_def)

lemma is_immune_sickness: "(is_immune c cell = Some True) = (sickness cell = IMMUNE c)"
  by (simp add: is_immune_def)

lemma health_by_sickness:
  "is_infected c = (\<lambda>cell. INFECTED c \<le> sickness cell)"
  "is_vulnerable c = (\<lambda>cell. sickness cell = VULNERABLE c)"
  "(\<lambda>cell. is_immune c cell = Some True) = (\<lambda>cell. sickness cell = IMMUNE c)"
  by (simp_all add: fun_eq_iff is_infected_def is_vulnerable_def is_immune_def)

lemma counts_by_sickness:
  "infected_count c m = int (length (filter (\<lambda>s. INFECTED c \<le> s) (map sickness (population m))))"
  "immune_count c m = int (length (filter (\<lambda>s. s = IMMUNE c) (map sickness (population m))))"
  "vulnerable_count c m =
     int (length (filter (\<lambda>s. s = VULNERABLE c) (map sickness (population m))))"
  by (simp_all add: infected_count_def immune_count_def vulnerable_count_def
      health_by_sickness comp_def)

lemma is_immune_Some_iff: "(is_immune c self = Some b) = (b \<and> sickness self = IMMUNE c)"
  by (auto simp: is_immune_def)

text \<open>
  C4. The claim: the three predicates return a boolean for every health value, and
  \<^verbatim>\<open>is_immune\<close> returns false when the cell is not immune. The code at a cell that was
  just created (vulnerable, so not immune): \<^verbatim>\<open>is_vulnerable\<close> and \<^verbatim>\<open>is_infected\<close>
  return booleans, \<^verbatim>\<open>is_immune\<close> returns \<^verbatim>\<open>None\<close>, not \<^verbatim>\<open>False\<close>.
\<close>

theorem is_immune_fresh_cell_None:
  "is_vulnerable sample_constants fresh_cell = True \<and>
   is_infected sample_constants fresh_cell = False \<and>
   is_immune sample_constants fresh_cell = None \<and>
   is_immune sample_constants fresh_cell \<noteq> Some False"
  by (simp add: fresh_cell_def Cell_init_def sample_constants_def
      is_vulnerable_def is_infected_def is_immune_def)

section \<open>The health of one cell along its history\<close>

lemma sickness_enforce_bounds: "sickness (enforce_bounds c cell) = sickness cell"
  by (simp add: enforce_bounds_def bounce_max_x_def bounce_min_x_def bounce_max_y_def
      bounce_min_y_def)

lemma sickness_Cell_tick:
  "sickness (Cell_tick c cell) =
     (if sickness cell \<ge> INFECTED c
      then (if sickness cell + 1 > RECOVERY_PERIOD c then IMMUNE c else sickness cell + 1)
      else (if sickness cell > RECOVERY_PERIOD c then IMMUNE c else sickness cell))"
  by (simp add: Cell_tick_def is_infected_def immunize_def Let_def)

lemma sickness_contact_with_fst:
  "sickness (fst (contact_with c self other)) =
     (if \<not> (is_infected c self \<and> is_vulnerable c other) \<and> is_infected c other \<and> is_vulnerable c self
      then INFECTED c else sickness self)"
  by (auto simp: contact_with_def contract_disease_def)

lemma sickness_contact_with_snd:
  "sickness (snd (contact_with c self other)) =
     (if is_infected c self \<and> is_vulnerable c other then INFECTED c else sickness other)"
  by (simp add: contact_with_def contract_disease_def)

lemma apply_op_immune:
  assumes "sentinels_ok c" and "sickness cell = IMMUNE c"
  shows "sickness (apply_op c op cell) = IMMUNE c"
  using assms
  by (cases op)
    (auto simp: sentinels_ok_def sickness_Cell_tick sickness_enforce_bounds
      sickness_contact_with_fst sickness_contact_with_snd is_vulnerable_def is_infected_def)

lemma run_ops_immune:
  assumes "sentinels_ok c" and "sickness cell = IMMUNE c"
  shows "sickness (run_ops c ops cell) = IMMUNE c"
  using assms(2) unfolding run_ops_def
  by (induction ops arbitrary: cell) (simp_all add: apply_op_immune [OF assms(1)])

lemma apply_op_infected:
  assumes "sentinels_ok c" and "INFECTED c \<le> sickness cell"
  shows "sickness (apply_op c op cell) =
           (if op = Tick
            then (if sickness cell + 1 > RECOVERY_PERIOD c then IMMUNE c else sickness cell + 1)
            else sickness cell)"
  using assms
  by (cases op)
    (auto simp: sentinels_ok_def sickness_Cell_tick sickness_enforce_bounds
      sickness_contact_with_fst sickness_contact_with_snd is_vulnerable_def is_infected_def)

lemma run_ops_infected:
  assumes ok: "sentinels_ok c"
  shows "INFECTED c \<le> sickness cell \<Longrightarrow> sickness cell \<le> RECOVERY_PERIOD c \<Longrightarrow>
         sickness (run_ops c ops cell) =
           (if sickness cell + int (ticks ops) \<le> RECOVERY_PERIOD c
            then sickness cell + int (ticks ops) else IMMUNE c)"
proof (induction ops arbitrary: cell)
  case Nil
  then show ?case by (simp add: run_ops_def)
next
  case (Cons op ops)
  have unfold: "run_ops c (op # ops) cell = run_ops c ops (apply_op c op cell)"
    by (simp add: run_ops_def)
  show ?case
  proof (cases "op = Tick")
    case False
    then have same: "sickness (apply_op c op cell) = sickness cell"
      using apply_op_infected [OF ok Cons.prems(1), where op = op] by simp
    from False have "ticks (op # ops) = ticks ops"
      by (cases op) simp_all
    with Cons.IH [of "apply_op c op cell"] Cons.prems same unfold show ?thesis
      by simp
  next
    case True
    show ?thesis
    proof (cases "sickness cell + 1 > RECOVERY_PERIOD c")
      case True
      with \<open>op = Tick\<close> have "sickness (apply_op c op cell) = IMMUNE c"
        using apply_op_infected [OF ok Cons.prems(1), where op = op] by simp
      then have "sickness (run_ops c (op # ops) cell) = IMMUNE c"
        using run_ops_immune [OF ok] unfold by simp
      with True \<open>op = Tick\<close> show ?thesis by simp
    next
      case False
      with \<open>op = Tick\<close> have next_s: "sickness (apply_op c op cell) = sickness cell + 1"
        using apply_op_infected [OF ok Cons.prems(1), where op = op] by simp
      with False Cons.prems Cons.IH [of "apply_op c op cell"] unfold \<open>op = Tick\<close>
      show ?thesis by simp
    qed
  qed
qed

lemma ticks_replicate: "ticks (replicate k Tick) = k"
  by (induction k) simp_all

text \<open>
  C5. Once \<^verbatim>\<open>is_immune\<close> is true of a cell, it stays true, and \<^verbatim>\<open>is_infected\<close> and
  \<^verbatim>\<open>is_vulnerable\<close> stay false, after every history: any number of \<^verbatim>\<open>tick\<close>,
  \<^verbatim>\<open>enforce_bounds\<close> and \<^verbatim>\<open>contact_with\<close> calls, the cell in either position and
  the other cell arbitrary.
\<close>

theorem immune_is_terminal:
  assumes "sentinels_ok c" and "is_immune c cell = Some True"
  shows "is_immune c (run_ops c ops cell) = Some True \<and>
         \<not> is_infected c (run_ops c ops cell) \<and>
         \<not> is_vulnerable c (run_ops c ops cell)"
proof -
  from assms(2) have "sickness cell = IMMUNE c"
    by (simp add: is_immune_Some_iff)
  then have "sickness (run_ops c ops cell) = IMMUNE c"
    by (rule run_ops_immune [OF assms(1)])
  with assms(1) show ?thesis
    by (simp add: is_immune_def is_infected_def is_vulnerable_def sentinels_ok_def)
qed

theorem immune_is_terminal_witness:
  "sentinels_ok sample_constants \<and>
   is_immune sample_constants immune_cell = Some True \<and>
   is_immune sample_constants
     (run_ops sample_constants
        [Tick, ContactWith infected_cell, Bounds, ContactFrom infected_cell, Tick] immune_cell) =
     Some True \<and>
   \<not> is_infected sample_constants
     (run_ops sample_constants
        [Tick, ContactWith infected_cell, Bounds, ContactFrom infected_cell, Tick] immune_cell) \<and>
   \<not> is_vulnerable sample_constants
     (run_ops sample_constants
        [Tick, ContactWith infected_cell, Bounds, ContactFrom infected_cell, Tick] immune_cell)"
  using immune_is_terminal [OF sentinels_ok_sample sample_health(3),
      of "[Tick, ContactWith infected_cell, Bounds, ContactFrom infected_cell, Tick]"]
    sentinels_ok_sample sample_health(3)
  by blast

text \<open>
  C8. \<^verbatim>\<open>contact_with\<close> on an infected and a vulnerable cell infects the vulnerable one
  (its sickness becomes the infection sentinel) whichever of the two is the receiver;
  when neither direction applies (in particular for two vulnerable cells, two infected
  cells, or when one of them is immune) both cells are returned as they were; and in
  every call the receiver or the argument is unchanged.
\<close>

theorem contact_with_cases:
  assumes "sentinels_ok c"
  shows "(is_infected c a \<and> is_vulnerable c b \<longrightarrow>
            contact_with c a b = (a, b\<lparr>sickness := INFECTED c\<rparr>) \<and>
            contact_with c b a = (b\<lparr>sickness := INFECTED c\<rparr>, a) \<and>
            is_infected c (b\<lparr>sickness := INFECTED c\<rparr>)) \<and>
         (\<not> (is_infected c a \<and> is_vulnerable c b) \<and> \<not> (is_infected c b \<and> is_vulnerable c a) \<longrightarrow>
            contact_with c a b = (a, b)) \<and>
         (is_vulnerable c a \<and> is_vulnerable c b \<longrightarrow> contact_with c a b = (a, b)) \<and>
         (is_infected c a \<and> is_infected c b \<longrightarrow> contact_with c a b = (a, b)) \<and>
         (is_immune c a = Some True \<or> is_immune c b = Some True \<longrightarrow>
            contact_with c a b = (a, b)) \<and>
         (fst (contact_with c a b) = a \<or> snd (contact_with c a b) = b)"
  using assms
  by (auto simp: contact_with_def contract_disease_def sentinels_ok_def is_infected_def
      is_vulnerable_def is_immune_def split: if_splits)

theorem contact_with_cases_witness:
  "sentinels_ok sample_constants \<and>
   is_infected sample_constants infected_cell \<and> is_vulnerable sample_constants fresh_cell \<and>
   contact_with sample_constants infected_cell fresh_cell =
     (infected_cell, fresh_cell\<lparr>sickness := INFECTED sample_constants\<rparr>) \<and>
   contact_with sample_constants fresh_cell infected_cell =
     (fresh_cell\<lparr>sickness := INFECTED sample_constants\<rparr>, infected_cell) \<and>
   contact_with sample_constants fresh_cell fresh_cell = (fresh_cell, fresh_cell) \<and>
   contact_with sample_constants infected_cell infected_cell = (infected_cell, infected_cell) \<and>
   contact_with sample_constants immune_cell infected_cell = (immune_cell, infected_cell) \<and>
   contact_with sample_constants fresh_cell immune_cell = (fresh_cell, immune_cell)"
proof -
  note ok = sentinels_ok_sample
  have "contact_with sample_constants infected_cell fresh_cell =
          (infected_cell, fresh_cell\<lparr>sickness := INFECTED sample_constants\<rparr>) \<and>
        contact_with sample_constants fresh_cell infected_cell =
          (fresh_cell\<lparr>sickness := INFECTED sample_constants\<rparr>, infected_cell)"
    using contact_with_cases [OF ok, of infected_cell fresh_cell]
    by (simp add: sample_health)
  moreover have "contact_with sample_constants fresh_cell fresh_cell = (fresh_cell, fresh_cell)"
    using contact_with_cases [OF ok, of fresh_cell fresh_cell]
    by (simp add: sample_health)
  moreover have
    "contact_with sample_constants infected_cell infected_cell = (infected_cell, infected_cell)"
    using contact_with_cases [OF ok, of infected_cell infected_cell]
    by (simp add: sample_health)
  moreover have
    "contact_with sample_constants immune_cell infected_cell = (immune_cell, infected_cell)"
    using contact_with_cases [OF ok, of immune_cell infected_cell]
    by (simp add: sample_health)
  moreover have
    "contact_with sample_constants fresh_cell immune_cell = (fresh_cell, immune_cell)"
    using contact_with_cases [OF ok, of fresh_cell immune_cell]
    by (simp add: sample_health)
  ultimately show ?thesis
    using ok sample_health by simp
qed

text \<open>
  C3, as the code has it. A cell that contracts the disease at tick \<open>T\<close> starts its
  counter at the infection sentinel \<^verbatim>\<open>INFECTED\<close>, and \<^verbatim>\<open>Cell.tick\<close> makes it immune as
  soon as the counter exceeds \<^verbatim>\<open>RECOVERY_PERIOD\<close>. So through any history without a
  further \<^verbatim>\<open>contract_disease\<close>, the cell is infected (and \<^verbatim>\<open>is_immune\<close> is not true)
  at the ticks \<open>T\<close> to \<open>T + RECOVERY_PERIOD - INFECTED\<close>, and immune (and not
  infected) from tick \<open>T + RECOVERY_PERIOD - INFECTED + 1\<close> on. The claim's ticks
  \<open>T + RECOVERY_PERIOD\<close> and \<open>T + RECOVERY_PERIOD + 1\<close> are these only when
  the infection sentinel is 0.
\<close>

theorem recovery_after_infection:
  assumes "sentinels_ok c" and "INFECTED c \<le> RECOVERY_PERIOD c"
  shows "(int (ticks ops) \<le> RECOVERY_PERIOD c - INFECTED c \<longrightarrow>
            is_infected c (run_ops c ops (contract_disease c cell)) \<and>
            is_immune c (run_ops c ops (contract_disease c cell)) = None) \<and>
         (int (ticks ops) > RECOVERY_PERIOD c - INFECTED c \<longrightarrow>
            is_immune c (run_ops c ops (contract_disease c cell)) = Some True \<and>
            \<not> is_infected c (run_ops c ops (contract_disease c cell)))"
proof -
  have start: "sickness (contract_disease c cell) = INFECTED c"
    by (simp add: contract_disease_def)
  have "sickness (run_ops c ops (contract_disease c cell)) =
          (if INFECTED c + int (ticks ops) \<le> RECOVERY_PERIOD c
           then INFECTED c + int (ticks ops) else IMMUNE c)"
    using run_ops_infected [OF assms(1), of "contract_disease c cell" ops] assms(2) start
    by simp
  with assms(1) show ?thesis
    by (auto simp: is_infected_def is_immune_def sentinels_ok_def)
qed

theorem recovery_after_infection_witness:
  "sentinels_ok sample_constants \<and>
   INFECTED sample_constants \<le> RECOVERY_PERIOD sample_constants \<and>
   is_infected sample_constants
     (run_ops sample_constants (replicate 89 Tick) (contract_disease sample_constants fresh_cell)) \<and>
   is_immune sample_constants
     (run_ops sample_constants (replicate 90 Tick) (contract_disease sample_constants fresh_cell)) =
     Some True"
proof -
  have h: "INFECTED sample_constants \<le> RECOVERY_PERIOD sample_constants"
    by (simp add: sample_constants_def)
  have a: "int (ticks (replicate 89 Tick)) \<le>
             RECOVERY_PERIOD sample_constants - INFECTED sample_constants"
    by (simp add: ticks_replicate sample_constants_def)
  have b: "int (ticks (replicate 90 Tick)) >
             RECOVERY_PERIOD sample_constants - INFECTED sample_constants"
    by (simp add: ticks_replicate sample_constants_def)
  show ?thesis
    using recovery_after_infection [OF sentinels_ok_sample h, of "replicate 89 Tick" fresh_cell]
      recovery_after_infection [OF sentinels_ok_sample h, of "replicate 90 Tick" fresh_cell]
      a b h sentinels_ok_sample
    by blast
qed

text \<open>
  C3, as the claim has it, fails where the infection sentinel is 1 and the recovery period
  90: at tick \<open>T + 90\<close>, inside the claim's interval \<open>[T, T + RECOVERY_PERIOD]\<close>, the
  cell is no longer infected and already immune.
\<close>

theorem recovery_one_tick_early:
  "\<not> is_infected sample_constants
       (run_ops sample_constants (replicate 90 Tick) (contract_disease sample_constants fresh_cell)) \<and>
   is_immune sample_constants
       (run_ops sample_constants (replicate 90 Tick) (contract_disease sample_constants fresh_cell)) =
     Some True"
proof -
  have start: "sickness (contract_disease sample_constants fresh_cell) = INFECTED sample_constants"
    by (simp add: contract_disease_def)
  have "sickness (run_ops sample_constants (replicate 90 Tick)
          (contract_disease sample_constants fresh_cell)) = IMMUNE sample_constants"
    using run_ops_infected [OF sentinels_ok_sample,
        of "contract_disease sample_constants fresh_cell" "replicate 90 Tick"] start
    by (simp add: ticks_replicate sample_constants_def)
  then show ?thesis
    by (simp add: is_infected_def is_immune_def sample_constants_def)
qed

section \<open>Boundary enforcement\<close>

text \<open>
  C7. \<^verbatim>\<open>enforce_bounds\<close> treats the two axes independently: a coordinate above its
  maximum becomes the maximum, one below its minimum becomes the minimum, in both cases
  the direction component of that axis is negated; a coordinate within its bounds and its
  direction component are unchanged; the health of the cell is not touched.
\<close>

theorem enforce_bounds_per_axis:
  assumes "bounds_ok c"
  shows "x (location (enforce_bounds c cell)) =
           (if x (location cell) > MAX_X c then MAX_X c
            else if x (location cell) < MIN_X c then MIN_X c else x (location cell)) \<and>
         x (direction (enforce_bounds c cell)) =
           (if x (location cell) > MAX_X c \<or> x (location cell) < MIN_X c
            then - x (direction cell) else x (direction cell)) \<and>
         y (location (enforce_bounds c cell)) =
           (if y (location cell) > MAX_Y c then MAX_Y c
            else if y (location cell) < MIN_Y c then MIN_Y c else y (location cell)) \<and>
         y (direction (enforce_bounds c cell)) =
           (if y (location cell) > MAX_Y c \<or> y (location cell) < MIN_Y c
            then - y (direction cell) else y (direction cell)) \<and>
         sickness (enforce_bounds c cell) = sickness cell"
  using assms
  by (auto simp: bounds_ok_def enforce_bounds_def bounce_max_x_def bounce_min_x_def
      bounce_max_y_def bounce_min_y_def)

theorem enforce_bounds_per_axis_witness:
  "bounds_ok sample_constants \<and>
   x (location (enforce_bounds sample_constants corner_cell)) = 200 \<and>
   x (direction (enforce_bounds sample_constants corner_cell)) = - 2 \<and>
   y (location (enforce_bounds sample_constants corner_cell)) = - 200 \<and>
   y (direction (enforce_bounds sample_constants corner_cell)) = 1 \<and>
   sickness (enforce_bounds sample_constants corner_cell) = 0"
proof -
  have eval:
    "x (location corner_cell) = 205" "y (location corner_cell) = - 203"
    "x (direction corner_cell) = 2" "y (direction corner_cell) = - 1"
    "sickness corner_cell = 0"
    "MAX_X sample_constants = 200" "MIN_X sample_constants = - 200"
    "MAX_Y sample_constants = 200" "MIN_Y sample_constants = - 200"
    by (simp_all add: corner_cell_def sample_constants_def)
  show ?thesis
    using enforce_bounds_per_axis [OF bounds_ok_sample, of corner_cell] bounds_ok_sample
    by (simp add: eval)
qed

section \<open>Construction\<close>

lemma sickness_new_cell:
  "sickness (fst (new_cell c rnd speed infected immune i k)) = seed c infected immune i"
  by (simp add: new_cell_def seed_def random_location_def random_direction_def Let_def
      Cell_init_def contract_disease_def immunize_def)

lemma init_loop_sickness:
  "map sickness (init_loop c rnd speed infected immune cells i k pop) =
     map sickness pop @ map (seed c infected immune) [i..cells - 1]"
proof (induction c rnd speed infected immune cells i k pop rule: init_loop.induct)
  case (1 c rnd speed infected immune cells i k pop)
  show ?case
  proof (cases "i < cells")
    case False
    then show ?thesis
      by (subst init_loop.simps) simp
  next
    case True
    obtain cell k' where nc: "new_cell c rnd speed infected immune i k = (cell, k')"
      by (cases "new_cell c rnd speed infected immune i k")
    have sick: "sickness cell = seed c infected immune i"
      using sickness_new_cell [of c rnd speed infected immune i k] nc by simp
    have range: "[i..cells - 1] = i # [i + 1..cells - 1]"
      using True by (simp add: upto_rec1)
    show ?thesis
      using "1.IH" [OF True nc [symmetric]] True nc sick range
      by (subst init_loop.simps) simp
  qed
qed

lemma map_constant:
  "(\<And>v. v \<in> set xs \<Longrightarrow> f v = k) \<Longrightarrow> map f xs = replicate (length xs) k"
  by (induction xs) auto

lemma seed_segments:
  assumes "0 < infected" and "0 \<le> immune" and "immune + infected < cells"
  shows "map (seed c infected immune) [0..cells - 1] =
           replicate (nat infected) (INFECTED c) @ replicate (nat immune) (IMMUNE c) @
           replicate (nat (cells - infected - immune)) (VULNERABLE c)"
proof -
  have split: "[0..cells - 1] =
      [0..infected - 1] @ [infected..immune + infected - 1] @ [immune + infected..cells - 1]"
    using assms upto_split1 [of 0 infected "cells - 1"]
      upto_split1 [of infected "immune + infected" "cells - 1"]
    by simp
  have a: "map (seed c infected immune) [0..infected - 1] = replicate (nat infected) (INFECTED c)"
    using assms by (subst map_constant [where k = "INFECTED c"]) (auto simp: seed_def)
  have b: "map (seed c infected immune) [infected..immune + infected - 1] =
             replicate (nat immune) (IMMUNE c)"
    using assms by (subst map_constant [where k = "IMMUNE c"]) (auto simp: seed_def)
  have d: "map (seed c infected immune) [immune + infected..cells - 1] =
             replicate (nat (cells - infected - immune)) (VULNERABLE c)"
    using assms by (subst map_constant [where k = "VULNERABLE c"]) (auto simp: seed_def)
  show ?thesis
    by (simp only: split map_append a b d)
qed

lemma Model_init_Inr_iff:
  "(Model_init c rnd cells speed infected immune = Inr m) =
     (0 < infected \<and> infected < cells \<and> 0 \<le> immune \<and> immune < cells \<and>
      immune + infected < cells \<and>
      m = \<lparr>population = init_loop c rnd speed infected immune cells 0 0 [], time = 0\<rparr>)"
  by (auto simp: Model_init_def)

lemma Model_init_sickness:
  assumes "Model_init c rnd cells speed infected immune = Inr m"
  shows "map sickness (population m) =
           replicate (nat infected) (INFECTED c) @ replicate (nat immune) (IMMUNE c) @
           replicate (nat (cells - infected - immune)) (VULNERABLE c)"
  using assms seed_segments [of infected immune cells c]
  by (simp add: Model_init_Inr_iff init_loop_sickness)

lemma Model_init_seeded: "Model_init sample_constants sample_rnd 10 1 3 2 = Inr seeded_model"
  by (simp add: Model_init_def seeded_model_def)

text \<open>
  C2. The constructor raises (a \<^verbatim>\<open>ValueError\<close>, the only error of the model) exactly
  when \<open>infected \<le> 0\<close>, \<open>infected \<ge> cells\<close>, \<open>immune < 0\<close>, \<open>immune \<ge> cells\<close> or
  \<open>infected + immune \<ge> cells\<close>; for all other arguments it returns a model.
\<close>

theorem Model_init_fails_iff:
  "(\<exists>msg. Model_init c rnd cells speed infected immune = Inl (ValueError msg)) =
     (infected \<le> 0 \<or> infected \<ge> cells \<or> immune < 0 \<or> immune \<ge> cells \<or>
      infected + immune \<ge> cells) \<and>
   (\<exists>m. Model_init c rnd cells speed infected immune = Inr m) =
     (0 < infected \<and> infected < cells \<and> 0 \<le> immune \<and> immune < cells \<and>
      infected + immune < cells)"
  by (auto simp: Model_init_def)

theorem Model_init_fails_iff_witness:
  "(\<exists>msg. Model_init sample_constants sample_rnd 10 1 0 0 = Inl (ValueError msg)) \<and>
   (\<exists>msg. Model_init sample_constants sample_rnd 10 1 3 7 = Inl (ValueError msg)) \<and>
   (\<exists>m. Model_init sample_constants sample_rnd 10 1 3 2 = Inr m)"
  using Model_init_fails_iff [of sample_constants sample_rnd 10 1 0 0]
    Model_init_fails_iff [of sample_constants sample_rnd 10 1 3 7]
    Model_init_fails_iff [of sample_constants sample_rnd 10 1 3 2]
  by simp

text \<open>
  C9. Right after a successful construction the population has \<open>cells\<close> cells; the
  first \<open>infected\<close> of them are infected, the next \<open>immune\<close> are immune, the rest are
  vulnerable; and the three counts are \<open>infected\<close>, \<open>immune\<close> and
  \<open>cells - infected - immune\<close>.
\<close>

theorem seeding_after_construction:
  assumes "sentinels_ok c" and "Model_init c rnd cells speed infected immune = Inr m"
  shows "population_size m = cells \<and>
         (\<forall>n. n < nat infected \<longrightarrow> is_infected c (population m ! n)) \<and>
         (\<forall>n. nat infected \<le> n \<and> n < nat (infected + immune) \<longrightarrow>
            is_immune c (population m ! n) = Some True) \<and>
         (\<forall>n. nat (infected + immune) \<le> n \<and> n < nat cells \<longrightarrow>
            is_vulnerable c (population m ! n)) \<and>
         infected_count c m = infected \<and>
         immune_count c m = immune \<and>
         vulnerable_count c m = cells - infected - immune"
proof -
  let ?ss = "replicate (nat infected) (INFECTED c) @ replicate (nat immune) (IMMUNE c) @
             replicate (nat (cells - infected - immune)) (VULNERABLE c)"
  have valid: "0 < infected" "infected < cells" "0 \<le> immune" "immune + infected < cells"
    using assms(2) by (simp_all add: Model_init_Inr_iff)
  have ss: "map sickness (population m) = ?ss"
    by (rule Model_init_sickness [OF assms(2)])
  have "length (map sickness (population m)) = length ?ss"
    by (simp only: ss)
  then have len: "length (population m) = nat cells"
    using valid by simp
  have nth: "sickness (population m ! n) = ?ss ! n" if "n < nat cells" for n
    using that len nth_map [of n "population m" sickness] ss by simp
  have size: "population_size m = cells"
    using len valid by (simp add: population_size_def)
  have first: "is_infected c (population m ! n)" if "n < nat infected" for n
  proof -
    from that valid have "n < nat cells" by arith
    with that nth [of n] show ?thesis
      by (simp add: is_infected_sickness nth_append)
  qed
  have second: "is_immune c (population m ! n) = Some True"
    if "nat infected \<le> n \<and> n < nat (infected + immune)" for n
  proof -
    from that valid have "n < nat cells" "n - nat infected < nat immune" by arith+
    with that nth [of n] show ?thesis
      by (simp add: is_immune_sickness nth_append)
  qed
  have third: "is_vulnerable c (population m ! n)"
    if "nat (infected + immune) \<le> n \<and> n < nat cells" for n
  proof -
    from that valid have "\<not> n < nat infected" "\<not> n - nat infected < nat immune"
      "n - nat infected - nat immune < nat (cells - infected - immune)" by arith+
    with that nth [of n] show ?thesis
      by (simp add: is_vulnerable_sickness nth_append)
  qed
  have ci: "infected_count c m = infected"
    using assms(1) valid by (simp add: counts_by_sickness ss sentinels_ok_def)
  have cm: "immune_count c m = immune"
    using assms(1) valid by (auto simp: counts_by_sickness ss sentinels_ok_def)
  have cv: "vulnerable_count c m = cells - infected - immune"
    using assms(1) valid by (auto simp: counts_by_sickness ss sentinels_ok_def)
  from size first second third ci cm cv show ?thesis
    by blast
qed

theorem seeding_after_construction_witness:
  "sentinels_ok sample_constants \<and>
   Model_init sample_constants sample_rnd 10 1 3 2 = Inr seeded_model \<and>
   population_size seeded_model = 10 \<and>
   is_infected sample_constants (population seeded_model ! 2) \<and>
   is_immune sample_constants (population seeded_model ! 3) = Some True \<and>
   is_vulnerable sample_constants (population seeded_model ! 9) \<and>
   infected_count sample_constants seeded_model = 3 \<and>
   immune_count sample_constants seeded_model = 2 \<and>
   vulnerable_count sample_constants seeded_model = 5"
proof -
  note inst = seeding_after_construction [OF sentinels_ok_sample Model_init_seeded]
  have "is_infected sample_constants (population seeded_model ! 2)"
    using inst by simp
  moreover have "is_immune sample_constants (population seeded_model ! 3) = Some True"
    using inst by simp
  moreover have "is_vulnerable sample_constants (population seeded_model ! 9)"
    using inst by simp
  ultimately show ?thesis
    using inst sentinels_ok_sample Model_init_seeded by simp
qed

section \<open>The step\<close>

lemma Point_distance_commute: "Point_distance a b = Point_distance b a"
  by (simp add: Point_distance_def power2_commute)

lemma contact_at_eq: "contact_at c i i2 pop = contact_if_close c (i, i2) pop"
  by (simp add: contact_at_def contact_if_close_def Point_distance_commute [of "location (pop ! i2)"])

lemma length_contact_if_close: "length (contact_if_close c ij pop) = length pop"
  by (simp add: contact_if_close_def split: prod.split)

lemma length_fold_contact: "length (fold (contact_if_close c) ps pop) = length pop"
  by (induction ps arbitrary: pop) (simp_all add: length_contact_if_close)

lemma check_contacts_inner_fold:
  "check_contacts_inner c i i2 pop =
     fold (contact_if_close c) (map (Pair i) [i2..<length pop]) pop"
proof (induction c i i2 pop rule: check_contacts_inner.induct)
  case (1 c i i2 pop)
  show ?case
  proof (cases "i2 < length pop")
    case False
    then show ?thesis
      by (subst check_contacts_inner.simps) simp
  next
    case True
    then have "[i2..<length pop] = i2 # [i2 + 1..<length pop]"
      by (simp add: upt_conv_Cons)
    with True "1.IH" [OF True] show ?thesis
      by (subst check_contacts_inner.simps) (simp add: length_contact_if_close contact_at_eq)
  qed
qed

lemma check_contacts_outer_fold:
  "check_contacts_outer c i pop =
     fold (contact_if_close c)
       (concat (map (\<lambda>i. map (Pair i) [i + 1..<length pop]) [i..<length pop])) pop"
proof (induction c i pop rule: check_contacts_outer.induct)
  case (1 c i pop)
  show ?case
  proof (cases "i < length pop")
    case False
    then show ?thesis
      by (subst check_contacts_outer.simps) simp
  next
    case True
    then have "[i..<length pop] = i # [i + 1..<length pop]"
      by (simp add: upt_conv_Cons)
    with True "1.IH" [OF True] show ?thesis
      by (subst check_contacts_outer.simps)
        (simp add: length_fold_contact check_contacts_inner_fold)
  qed
qed

lemma move_cells_map: "move_cells c pop = map (\<lambda>cell. enforce_bounds c (Cell_tick c cell)) pop"
  by (induction pop) simp_all



lemma Model_tick_eq_tick_spec: "Model_tick c m = tick_spec c m"
  by (cases m)
    (simp add: Model_tick_def tick_spec_def check_contacts_def check_contacts_outer_fold
      move_cells_map index_pairs_def Let_def)

lemma length_population_Model_tick:
  "length (population (Model_tick c m)) = length (population m)"
  by (simp add: Model_tick_eq_tick_spec tick_spec_def Let_def length_fold_contact)

section \<open>The counts of the population\<close>

lemma disjoint_counts:
  "(\<And>v. \<not> (P v \<and> Q v)) \<Longrightarrow> length (filter P xs) + length (filter Q xs) \<le> length xs"
  by (induction xs) auto

lemma length_population_ticks:
  "length (population ((Model_tick c ^^ n) m)) = length (population m)"
  by (induction n) (simp_all add: length_population_Model_tick)

lemma counts_weak_bounds:
  assumes "sentinels_ok c"
  shows "0 \<le> infected_count c m \<and> infected_count c m \<le> population_size m \<and>
         0 \<le> immune_count c m \<and> infected_count c m + immune_count c m \<le> population_size m"
proof -
  have "\<not> (is_infected c v \<and> is_immune c v = Some True)" for v
    using assms by (auto simp: sentinels_ok_def is_infected_def is_immune_def split: if_splits)
  then have "length (filter (is_infected c) (population m)) +
      length (filter (\<lambda>cell. is_immune c cell = Some True) (population m)) \<le>
      length (population m)"
    by (rule disjoint_counts)
  then show ?thesis
    by (simp add: infected_count_def immune_count_def population_size_def)
qed

lemma sqrt_less_iff: "0 \<le> r \<Longrightarrow> (sqrt a < r) = (a < r\<^sup>2)"
  using real_sqrt_less_iff [of a "r\<^sup>2"] by simp

lemma Model_init_pair: "Model_init sample_constants sample_rnd 2 0 1 0 = Inr pair_model"
  by (simp add: Model_init_def init_loop.simps new_cell_def random_location_def
      random_direction_def Cell_init_def contract_disease_def immunize_def pair_model_def
      sample_rnd_def sample_constants_def Let_def)

lemma Model_tick_pair:
  "Model_tick sample_constants pair_model =
     \<lparr>population =
        [\<lparr>location = \<lparr>x = 0, y = 2 / 5\<rparr>, direction = \<lparr>x = 0, y = 0\<rparr>, sickness = 2\<rparr>,
         \<lparr>location = \<lparr>x = 6 / 5, y = 8 / 5\<rparr>, direction = \<lparr>x = 0, y = 0\<rparr>, sickness = 1\<rparr>],
      time = 1\<rparr>"
  by (simp add: Model_tick_def check_contacts_def check_contacts_outer.simps
      check_contacts_inner.simps contact_at_def contact_with_def Point_distance_def
      sqrt_less_iff power2_eq_square
      pair_model_def Cell_tick_def Point_add_def
      is_infected_def is_vulnerable_def contract_disease_def
      immunize_def enforce_bounds_def bounce_max_x_def bounce_min_x_def
      bounce_max_y_def bounce_min_y_def sample_constants_def Let_def)

text \<open>
  C1, as the code has it. A model that was constructed successfully has
  \<open>0 < infected_count < population_size\<close>, \<open>0 \<le> immune_count\<close> and
  \<open>infected_count + immune_count < population_size\<close>. After any number of
  \<^verbatim>\<open>Model.tick\<close> calls the population still has \<open>cells\<close> cells, and what remains of
  the bounds is \<open>0 \<le> infected_count \<le> population_size\<close>, \<open>0 \<le> immune_count\<close> and
  \<open>infected_count + immune_count \<le> population_size\<close>: the strict bounds are facts
  of the constructor's validation, not of the step.
\<close>

theorem counts_of_reachable_model:
  assumes "sentinels_ok c" and "Model_init c rnd cells speed infected immune = Inr m"
  shows "(0 < infected_count c m \<and> infected_count c m < population_size m \<and>
          0 \<le> immune_count c m \<and>
          infected_count c m + immune_count c m < population_size m) \<and>
         (population_size ((Model_tick c ^^ n) m) = cells \<and>
          0 \<le> infected_count c ((Model_tick c ^^ n) m) \<and>
          infected_count c ((Model_tick c ^^ n) m) \<le> population_size ((Model_tick c ^^ n) m) \<and>
          0 \<le> immune_count c ((Model_tick c ^^ n) m) \<and>
          infected_count c ((Model_tick c ^^ n) m) + immune_count c ((Model_tick c ^^ n) m) \<le>
            population_size ((Model_tick c ^^ n) m))"
proof -
  have valid: "0 < infected" "infected < cells" "0 \<le> immune" "immune + infected < cells"
    using assms(2) by (simp_all add: Model_init_Inr_iff)
  have "map sickness (population m) =
          replicate (nat infected) (INFECTED c) @ replicate (nat immune) (IMMUNE c) @
          replicate (nat (cells - infected - immune)) (VULNERABLE c)"
    by (rule Model_init_sickness [OF assms(2)])
  then have start: "infected_count c m = infected" "immune_count c m = immune"
    using assms(1) valid by (auto simp: counts_by_sickness sentinels_ok_def)
  have "length (map sickness (population m)) = nat cells"
    using valid Model_init_sickness [OF assms(2)] by simp
  then have size0: "population_size m = cells"
    using valid by (simp add: population_size_def)
  have size: "population_size ((Model_tick c ^^ n) m) = cells"
    using size0 by (simp add: population_size_def length_population_ticks)
  from start size0 size valid counts_weak_bounds [OF assms(1), of "(Model_tick c ^^ n) m"]
  show ?thesis
    by simp
qed

theorem counts_of_reachable_model_witness:
  "sentinels_ok sample_constants \<and>
   Model_init sample_constants sample_rnd 2 0 1 0 = Inr pair_model \<and>
   0 < infected_count sample_constants pair_model \<and>
   infected_count sample_constants pair_model < population_size pair_model \<and>
   infected_count sample_constants pair_model + immune_count sample_constants pair_model <
     population_size pair_model \<and>
   population_size ((Model_tick sample_constants ^^ 3) pair_model) = 2 \<and>
   infected_count sample_constants ((Model_tick sample_constants ^^ 3) pair_model) \<le>
     population_size ((Model_tick sample_constants ^^ 3) pair_model) \<and>
   infected_count sample_constants ((Model_tick sample_constants ^^ 3) pair_model) +
       immune_count sample_constants ((Model_tick sample_constants ^^ 3) pair_model) \<le>
     population_size ((Model_tick sample_constants ^^ 3) pair_model)"
  using counts_of_reachable_model [OF sentinels_ok_sample Model_init_pair, of 3]
    sentinels_ok_sample Model_init_pair
  by blast

text \<open>
  C1, as the claim has it, fails after one step of the model that \<^verbatim>\<open>Model(2, 0.0, 1)\<close>
  builds from the sample random values: the infected cell and the vulnerable cell are
  1.7 units apart, the contact scan infects the second, and the infected count equals
  the population size.
\<close>

theorem all_infected_after_one_tick:
  "Model_init sample_constants sample_rnd 2 0 1 0 = Inr pair_model \<and>
   infected_count sample_constants (Model_tick sample_constants pair_model) = 2 \<and>
   population_size (Model_tick sample_constants pair_model) = 2 \<and>
   \<not> infected_count sample_constants (Model_tick sample_constants pair_model) <
       population_size (Model_tick sample_constants pair_model)"
proof -
  have "infected_count sample_constants (Model_tick sample_constants pair_model) = 2"
    unfolding Model_tick_pair infected_count_def
    by (simp add: is_infected_def sample_constants_def)
  moreover have "population_size (Model_tick sample_constants pair_model) = 2"
    unfolding Model_tick_pair population_size_def by simp
  ultimately show ?thesis
    using Model_init_pair by simp
qed

section \<open>Rounding to a double\<close>

lemma round_half_even_near:
  assumes "of_int n - 1 / 2 < r" and "r < of_int n + 1 / 2"
  shows "round_half_even r = n"
proof -
  have "\<lfloor>r\<rfloor> = n \<or> \<lfloor>r\<rfloor> = n - 1"
    using assms by linarith
  then show ?thesis
  proof
    assume f: "\<lfloor>r\<rfloor> = n"
    with assms show ?thesis by (simp add: round_half_even_def Let_def)
  next
    assume f: "\<lfloor>r\<rfloor> = n - 1"
    with assms show ?thesis by (simp add: round_half_even_def Let_def)
  qed
qed

lemma floor_log2:
  assumes "2 powi k \<le> \<bar>r\<bar>" and "\<bar>r\<bar> < 2 powi (k + 1)"
  shows "\<lfloor>log 2 \<bar>r\<bar>\<rfloor> = k"
proof -
  have "0 < (2::real) powi k"
    by simp
  with assms(1) have pos: "0 < \<bar>r\<bar>"
    by linarith
  have "(2::real) powr real_of_int k = 2 powi k"
    by (simp add: powr_real_of_int')
  moreover have "(2::real) powr (real_of_int k + 1) = 2 powi (k + 1)"
    using powr_real_of_int' [of "2::real" "k + 1"] by simp
  ultimately show ?thesis
    using assms floor_log_eq_powr_iff [OF pos, of 2 k] by simp
qed

lemma to_double_round:
  assumes "2 powi k \<le> \<bar>r\<bar>" and "\<bar>r\<bar> < 2 powi (k + 1)" and "- 1022 \<le> k"
    and "of_int n - 1 / 2 < r * 2 powi (52 - k)" and "r * 2 powi (52 - k) < of_int n + 1 / 2"
    and "\<bar>of_int n * 2 powi (k - 52)\<bar> < (2::real) ^ 1024"
  shows "to_double r = Fin (of_int n * 2 powi (k - 52))"
proof -
  have "0 < (2::real) powi k"
    by simp
  with assms(1) have "0 < \<bar>r\<bar>"
    by linarith
  then have nz: "r \<noteq> 0"
    by simp
  have e: "max (\<lfloor>log 2 \<bar>r\<bar>\<rfloor> - 52) (- 1074) = k - 52"
    using floor_log2 [OF assms(1,2)] assms(3) by simp
  have scaled: "r / 2 powi (k - 52) = r * 2 powi (52 - k)"
    using power_int_minus [of "2::real" "k - 52"] by (simp add: field_simps)
  have "round_half_even (r / 2 powi (k - 52)) = n"
    unfolding scaled by (rule round_half_even_near [OF assms(4,5)])
  with nz e assms(6) show ?thesis
    by (simp add: to_double_def Let_def)
qed

lemma to_double_exact:
  assumes "2 powi k \<le> \<bar>r\<bar>" and "\<bar>r\<bar> < 2 powi (k + 1)" and "- 1022 \<le> k" and "k \<le> 1023"
    and "r * 2 powi (52 - k) = of_int n"
  shows "to_double r = Fin r"
proof -
  have unscaled: "of_int n * 2 powi (k - 52) = r"
  proof -
    have "of_int n * 2 powi (k - 52) = r * (2 powi (52 - k) * 2 powi (k - 52))"
      by (simp add: assms(5) [symmetric])
    also have "(2::real) powi (52 - k) * 2 powi (k - 52) = 1"
      using power_int_add [of "2::real" "52 - k" "k - 52"] by simp
    finally show ?thesis by simp
  qed
  have "(2::real) powi (k + 1) \<le> 2 powi 1024"
    using assms(4) by (intro power_int_increasing) simp_all
  with assms(2) have small: "\<bar>r\<bar> < (2::real) ^ 1024"
    by simp
  have "to_double r = Fin (of_int n * 2 powi (k - 52))"
  proof (rule to_double_round [OF assms(1,2,3)])
    show "of_int n - 1 / 2 < r * 2 powi (52 - k)"
      by (simp add: assms(5))
    show "r * 2 powi (52 - k) < of_int n + 1 / 2"
      by (simp add: assms(5))
    show "\<bar>of_int n * 2 powi (k - 52)\<bar> < (2::real) ^ 1024"
      unfolding unscaled by (rule small)
  qed
  then show ?thesis
    by (simp only: unscaled)
qed

lemma to_double_not_NaN: "to_double r \<noteq> NaN"
  by (simp add: to_double_def Let_def)

lemma fmul_NaN [simp]: "fmul a NaN = NaN"
  by (cases a) simp_all

lemma fadd_NaN [simp]: "fadd a NaN = NaN"
  by (cases a) simp_all

lemma flt_NaN [simp]: "flt a NaN = False"
  by (cases a) simp_all

lemma fle_NaN [simp]: "fle a NaN = False"
  by (cases a) simp_all

lemma to_double_0: "to_double 0 = Fin 0"
  by (simp add: to_double_def)









lemma to_double_200: "to_double 200 = Fin 200"
  by (rule to_double_exact [where k = 7 and n = "200 * 2 ^ 45"]) simp_all

lemma to_double_two_pi: "to_double (2 * pi_double) = Fin (2 * pi_double)"
  unfolding pi_double_def
  by (rule to_double_exact [where k = 2 and n = "884279719003555 * 2 ^ 3"]) simp_all

lemma to_double_pi: "to_double pi_double = Fin pi_double"
  unfolding pi_double_def
  by (rule to_double_exact [where k = 1 and n = "884279719003555 * 2 ^ 3"]) simp_all

lemma round_half_even_close: "\<bar>of_int (round_half_even s) - s\<bar> \<le> 1 / 2"
proof -
  have "of_int \<lfloor>s\<rfloor> \<le> s" "s < of_int \<lfloor>s\<rfloor> + 1"
    by linarith+
  then show ?thesis
    by (auto simp: round_half_even_def Let_def abs_le_iff)
qed

lemma power_floor_log2_le:
  assumes "r \<noteq> 0"
  shows "2 powi \<lfloor>log 2 \<bar>r\<bar>\<rfloor> \<le> \<bar>r\<bar>"
proof -
  have pos: "0 < \<bar>r\<bar>" using assms by simp
  have "2 powr real_of_int \<lfloor>log 2 \<bar>r\<bar>\<rfloor> \<le> \<bar>r\<bar>"
    using floor_log_eq_powr_iff [OF pos, of 2 "\<lfloor>log 2 \<bar>r\<bar>\<rfloor>"] by simp
  then show ?thesis
    by (simp add: powr_real_of_int')
qed

lemma to_double_bounded:
  assumes "\<bar>r\<bar> \<le> B" and "1 \<le> B" and "B \<le> 2 ^ 1000"
  shows "\<exists>v. to_double r = Fin v \<and> \<bar>v\<bar> \<le> 2 * B"
proof (cases "r = 0")
  case True
  with assms show ?thesis by (simp add: to_double_def)
next
  case False
  define e where "e = max (\<lfloor>log 2 \<bar>r\<bar>\<rfloor> - 52) (- 1074)"
  define v where "v = of_int (round_half_even (r / 2 powi e)) * (2::real) powi e"
  have pe: "0 < (2::real) powi e" by simp
  have ulp: "(2::real) powi e \<le> B"
  proof (cases "\<lfloor>log 2 \<bar>r\<bar>\<rfloor> - 52 \<le> - 1074")
    case True
    then have "e = - 1074" by (simp add: e_def)
    then have "(2::real) powi e \<le> 1"
      by (simp add: power_int_minus inverse_le_1_iff)
    with assms(2) show ?thesis by linarith
  next
    case False
    then have e: "e = \<lfloor>log 2 \<bar>r\<bar>\<rfloor> - 52" by (simp add: e_def)
    have "(2::real) powi e \<le> 2 powi \<lfloor>log 2 \<bar>r\<bar>\<rfloor>"
      unfolding e by (rule power_int_increasing) simp_all
    also have "\<dots> \<le> \<bar>r\<bar>" by (rule power_floor_log2_le [OF \<open>r \<noteq> 0\<close>])
    finally show ?thesis using assms(1) by linarith
  qed
  have "v - r = (of_int (round_half_even (r / 2 powi e)) - r / 2 powi e) * 2 powi e"
    using pe by (simp add: v_def left_diff_distrib)
  then have "\<bar>v - r\<bar> = \<bar>of_int (round_half_even (r / 2 powi e)) - r / 2 powi e\<bar> * 2 powi e"
    using pe by (simp add: abs_mult)
  also have "\<dots> \<le> 1 / 2 * 2 powi e"
    using round_half_even_close [of "r / 2 powi e"] pe by (intro mult_right_mono) simp_all
  finally have "\<bar>v - r\<bar> \<le> B"
    using ulp pe by linarith
  with assms(1) have vb: "\<bar>v\<bar> \<le> 2 * B" by linarith
  have "2 * B \<le> 2 * 2 ^ 1000" using assms(3) by simp
  also have "\<dots> < (2::real) ^ 1024" by simp
  finally have "\<bar>v\<bar> < 2 ^ 1024" using vb by linarith
  then have "to_double r = Fin v"
    using False by (simp add: to_double_def Let_def e_def [symmetric] v_def [symmetric])
  with vb show ?thesis by blast
qed

section \<open>The step on Python floats\<close>

lemma Point_distance_fl_computed:
  "Point_distance_fl q p = computed_distance p q"
  by (simp add: Point_distance_fl_def computed_distance_def)

lemma scan_pairs_Cons:
  "scan_pairs c ((i, j) # ps) pop =
     (case contact_at_fl c i j pop of
        Inl e \<Rightarrow> (Some e, pop)
      | Inr pop' \<Rightarrow> scan_pairs c ps pop')"
  by (simp add: contact_at_fl_def contact_pair_def Point_distance_fl_computed
      split: sum.split prod.split)

lemma length_scan_pairs: "length (snd (scan_pairs c ps pop)) = length pop"
proof (induction ps arbitrary: pop)
  case Nil
  show ?case by simp
next
  case (Cons p ps)
  obtain i j where p: "p = (i, j)" by (cases p)
  show ?case
  proof (cases "contact_at_fl c i j pop")
    case (Inl e)
    then show ?thesis by (simp only: p scan_pairs_Cons) simp
  next
    case (Inr pop')
    with Cons.IH [of pop'] length_contact_at_fl [OF Inr] show ?thesis
      by (simp only: p scan_pairs_Cons) simp
  qed
qed

lemma scan_pairs_append:
  "scan_pairs c (ps @ qs) pop =
     (case scan_pairs c ps pop of
        (Some e, pop') \<Rightarrow> (Some e, pop')
      | (None, pop') \<Rightarrow> scan_pairs c qs pop')"
proof (induction ps arbitrary: pop)
  case Nil
  show ?case by simp
next
  case (Cons p ps)
  obtain i j where p: "p = (i, j)" by (cases p)
  show ?case
    by (cases "contact_at_fl c i j pop") (simp_all add: p scan_pairs_Cons Cons.IH del: scan_pairs.simps)
qed

lemma check_contacts_inner_fl_scan:
  "check_contacts_inner_fl c i i2 pop = scan_pairs c (map (Pair i) [i2..<length pop]) pop"
proof (induction c i i2 pop rule: check_contacts_inner_fl.induct)
  case (1 c i i2 pop)
  show ?case
  proof (cases "i2 < length pop")
    case False
    then show ?thesis
      by (subst check_contacts_inner_fl.simps) simp
  next
    case True
    then have range: "[i2..<length pop] = i2 # [i2 + 1..<length pop]"
      by (simp add: upt_conv_Cons)
    show ?thesis
    proof (cases "contact_at_fl c i i2 pop")
      case (Inl e)
      with True show ?thesis
        by (subst check_contacts_inner_fl.simps) (simp add: range scan_pairs_Cons del: scan_pairs.simps)
    next
      case (Inr pop')
      with True "1.IH" [OF True Inr] length_contact_at_fl [OF Inr] show ?thesis
        by (subst check_contacts_inner_fl.simps) (simp add: range scan_pairs_Cons del: scan_pairs.simps)
    qed
  qed
qed

lemma check_contacts_outer_fl_scan:
  "check_contacts_outer_fl c i pop =
     scan_pairs c (concat (map (\<lambda>i. map (Pair i) [i + 1..<length pop]) [i..<length pop])) pop"
proof (induction c i pop rule: check_contacts_outer_fl.induct)
  case (1 c i pop)
  show ?case
  proof (cases "i < length pop")
    case False
    then show ?thesis
      by (subst check_contacts_outer_fl.simps) simp
  next
    case True
    then have range: "[i..<length pop] = i # [i + 1..<length pop]"
      by (simp add: upt_conv_Cons)
    obtain raised pop' where inner: "check_contacts_inner_fl c i (i + 1) pop = (raised, pop')"
      by (cases "check_contacts_inner_fl c i (i + 1) pop")
    have len: "length pop' = length pop"
      using length_check_contacts_inner_fl [of c i "i + 1" pop] inner by simp
    have scan: "scan_pairs c (map (Pair i) [i + 1..<length pop]) pop = (raised, pop')"
      using inner by (simp add: check_contacts_inner_fl_scan)
    show ?thesis
    proof (cases raised)
      case (Some e)
      with True inner scan show ?thesis
        by (subst check_contacts_outer_fl.simps) (simp add: range scan_pairs_append)
    next
      case None
      with True inner scan len "1.IH" [OF True inner [symmetric] None] show ?thesis
        by (subst check_contacts_outer_fl.simps) (simp add: range scan_pairs_append)
    qed
  qed
qed

lemma move_cells_fl_map:
  "move_cells_fl c pop = map (\<lambda>cell. enforce_bounds_fl c (Cell_tick_fl c cell)) pop"
  by (induction pop) simp_all

lemma Model_tick_fl_eq_spec: "Model_tick_fl c m = tick_spec_fl c m"
  by (cases m)
    (simp add: Model_tick_fl_def tick_spec_fl_def check_contacts_outer_fl_scan
      move_cells_fl_map index_pairs_def Let_def split: prod.split)






section \<open>Locations after a step on Python floats\<close>

lemma fadd_finite_not_NaN: "is_finite a \<Longrightarrow> d \<noteq> NaN \<Longrightarrow> fadd a d \<noteq> NaN"
  by (cases a; cases d) (simp_all add: to_double_not_NaN)

lemma fmul_minus_one_not_NaN: "d \<noteq> NaN \<Longrightarrow> fmul d (Fin (- 1)) \<noteq> NaN"
  by (cases d) (simp_all add: to_double_not_NaN inf_times_def)

lemma clamp_x:
  assumes "MIN_X c \<le> MAX_X c" and "x_fl (location_fl cell) \<noteq> NaN"
  shows "\<exists>u. x_fl (location_fl (bounce_min_x_fl c (bounce_max_x_fl c cell))) = Fin u \<and>
              MIN_X c \<le> u \<and> u \<le> MAX_X c"
  using assms
  by (cases "x_fl (location_fl cell)")
    (auto simp: bounce_min_x_fl_def bounce_max_x_fl_def fgt_def)

lemma clamp_y:
  assumes "MIN_Y c \<le> MAX_Y c" and "y_fl (location_fl cell) \<noteq> NaN"
  shows "\<exists>u. y_fl (location_fl (bounce_min_y_fl c (bounce_max_y_fl c cell))) = Fin u \<and>
              MIN_Y c \<le> u \<and> u \<le> MAX_Y c"
  using assms
  by (cases "y_fl (location_fl cell)")
    (auto simp: bounce_min_y_fl_def bounce_max_y_fl_def fgt_def)

lemma bounce_x_keeps_y:
  "y_fl (location_fl (bounce_min_x_fl c (bounce_max_x_fl c cell))) = y_fl (location_fl cell)"
  "y_fl (direction_fl (bounce_min_x_fl c (bounce_max_x_fl c cell))) = y_fl (direction_fl cell)"
  by (simp_all add: bounce_min_x_fl_def bounce_max_x_fl_def)

lemma bounce_y_keeps_x:
  "x_fl (location_fl (bounce_min_y_fl c (bounce_max_y_fl c cell))) = x_fl (location_fl cell)"
  "x_fl (direction_fl (bounce_min_y_fl c (bounce_max_y_fl c cell))) = x_fl (direction_fl cell)"
  by (simp_all add: bounce_min_y_fl_def bounce_max_y_fl_def)

lemma bounce_x_direction:
  "x_fl (direction_fl cell) \<noteq> NaN \<Longrightarrow>
   x_fl (direction_fl (bounce_min_x_fl c (bounce_max_x_fl c cell))) \<noteq> NaN"
  by (simp add: bounce_min_x_fl_def bounce_max_x_fl_def fmul_minus_one_not_NaN)

lemma bounce_y_direction:
  "y_fl (direction_fl cell) \<noteq> NaN \<Longrightarrow>
   y_fl (direction_fl (bounce_min_y_fl c (bounce_max_y_fl c cell))) \<noteq> NaN"
  by (simp add: bounce_min_y_fl_def bounce_max_y_fl_def fmul_minus_one_not_NaN)

lemma enforce_bounds_fl_clamps:
  assumes "bounds_ok c"
    and "x_fl (location_fl cell) \<noteq> NaN" and "y_fl (location_fl cell) \<noteq> NaN"
    and "x_fl (direction_fl cell) \<noteq> NaN" and "y_fl (direction_fl cell) \<noteq> NaN"
  shows "in_bounds_fl c (location_fl (enforce_bounds_fl c cell)) \<and> steady (enforce_bounds_fl c cell)"
proof -
  let ?cx = "bounce_min_x_fl c (bounce_max_x_fl c cell)"
  have ok: "MIN_X c \<le> MAX_X c" "MIN_Y c \<le> MAX_Y c"
    using assms(1) by (simp_all add: bounds_ok_def)
  have whole: "enforce_bounds_fl c cell = bounce_min_y_fl c (bounce_max_y_fl c ?cx)"
    by (simp add: enforce_bounds_fl_def)
  obtain u where u: "x_fl (location_fl ?cx) = Fin u" "MIN_X c \<le> u" "u \<le> MAX_X c"
    using clamp_x [OF ok(1) assms(2)] by blast
  have "y_fl (location_fl ?cx) \<noteq> NaN"
    using assms(3) by (simp add: bounce_x_keeps_y)
  then obtain v where v: "y_fl (location_fl (enforce_bounds_fl c cell)) = Fin v"
      "MIN_Y c \<le> v" "v \<le> MAX_Y c"
    using clamp_y [OF ok(2), of ?cx] whole by auto
  have x: "x_fl (location_fl (enforce_bounds_fl c cell)) = Fin u"
    using u(1) by (simp add: whole bounce_y_keeps_x)
  have dx: "x_fl (direction_fl (enforce_bounds_fl c cell)) \<noteq> NaN"
    using bounce_x_direction [OF assms(4), of c] by (simp add: whole bounce_y_keeps_x)
  have "y_fl (direction_fl ?cx) \<noteq> NaN"
    using assms(5) by (simp add: bounce_x_keeps_y)
  then have dy: "y_fl (direction_fl (enforce_bounds_fl c cell)) \<noteq> NaN"
    unfolding whole by (rule bounce_y_direction)
  from x v u dx dy show ?thesis
    by (simp add: in_bounds_fl_def steady_def)
qed

lemma Cell_tick_fl_motion:
  "location_fl (Cell_tick_fl c cell) = Point_add_fl (location_fl cell) (direction_fl cell)"
  "direction_fl (Cell_tick_fl c cell) = direction_fl cell"
  by (simp_all add: Cell_tick_fl_def immunize_fl_def Let_def)

lemma moved_cell_in_bounds:
  assumes "bounds_ok c" and "steady cell"
  shows "in_bounds_fl c (location_fl (enforce_bounds_fl c (Cell_tick_fl c cell))) \<and>
         steady (enforce_bounds_fl c (Cell_tick_fl c cell))"
  using assms(2)
  by (intro enforce_bounds_fl_clamps [OF assms(1)])
    (simp_all add: steady_def Cell_tick_fl_motion Point_add_fl_def fadd_finite_not_NaN)

lemma motion_contact_with_fl:
  "motion (fst (contact_with_fl c self other)) = motion self"
  "motion (snd (contact_with_fl c self other)) = motion other"
  by (simp_all add: contact_with_fl_def contract_disease_fl_def motion_def)

lemma map_motion_contact_pair: "map motion (contact_pair c i j pop) = map motion pop"
proof -
  obtain a b where ab: "contact_with_fl c (pop ! i) (pop ! j) = (a, b)"
    by (cases "contact_with_fl c (pop ! i) (pop ! j)")
  have ma: "motion a = motion (pop ! i)" and mb: "motion b = motion (pop ! j)"
    using motion_contact_with_fl [of c "pop ! i" "pop ! j"] ab by simp_all
  have keep: "(map motion pop)[k := motion (pop ! k)] = map motion pop" for k
  proof (cases "k < length pop")
    case True
    then have "motion (pop ! k) = map motion pop ! k" by simp
    then show ?thesis by (simp only: list_update_id)
  next
    case False
    then show ?thesis by (simp add: list_update_beyond)
  qed
  show ?thesis
    by (simp add: contact_pair_def ab map_update ma mb keep)
qed

lemma map_motion_scan_pairs: "map motion (snd (scan_pairs c ps pop)) = map motion pop"
proof (induction ps arbitrary: pop)
  case Nil
  show ?case by simp
next
  case (Cons p ps)
  obtain i j where p: "p = (i, j)" by (cases p)
  show ?case
    by (cases "computed_distance (location_fl (pop ! i)) (location_fl (pop ! j))")
      (simp_all add: p Cons.IH map_motion_contact_pair)
qed

lemma map_motion_Model_tick_fl:
  "map motion (population_fl (snd (Model_tick_fl c m))) =
     map (\<lambda>cell. motion (enforce_bounds_fl c (Cell_tick_fl c cell))) (population_fl m)"
proof -
  let ?moved = "map (\<lambda>cell. enforce_bounds_fl c (Cell_tick_fl c cell)) (population_fl m)"
  obtain raised pop where scan: "scan_pairs c (index_pairs (length ?moved)) ?moved = (raised, pop)"
    by (cases "scan_pairs c (index_pairs (length ?moved)) ?moved")
  have "map motion pop = map motion ?moved"
    using map_motion_scan_pairs [of c "index_pairs (length ?moved)" ?moved] scan by simp
  then show ?thesis
    using scan by (simp add: Model_tick_fl_eq_spec tick_spec_fl_def Let_def comp_def)
qed

lemma tick_keeps_in_bounds:
  assumes "bounds_ok c" and "\<forall>cell \<in> set (population_fl m). steady cell"
  shows "\<forall>cell \<in> set (population_fl (snd (Model_tick_fl c m))).
           in_bounds_fl c (location_fl cell) \<and> steady cell"
proof
  fix cell
  assume "cell \<in> set (population_fl (snd (Model_tick_fl c m)))"
  then have "motion cell \<in> set (map motion (population_fl (snd (Model_tick_fl c m))))"
    by simp
  then obtain old where old: "old \<in> set (population_fl m)"
      "motion cell = motion (enforce_bounds_fl c (Cell_tick_fl c old))"
    by (auto simp: map_motion_Model_tick_fl)
  from old(1) assms(2) have "steady old" by blast
  from moved_cell_in_bounds [OF assms(1) this] old(2)
  show "in_bounds_fl c (location_fl cell) \<and> steady cell"
    by (simp add: motion_def steady_def)
qed

lemma length_population_Model_tick_fl:
  "length (population_fl (snd (Model_tick_fl c m))) = length (population_fl m)"
  using arg_cong [OF map_motion_Model_tick_fl [of c m], of length] by simp

lemma Model_tick_fl_fast_first:
  "location_fl (population_fl (snd (Model_tick_fl sample_constants fast_model_fl)) ! 0) =
     \<lparr>x_fl = Fin 200, y_fl = Fin (- 200)\<rparr>"
proof -
  have "map motion (population_fl (snd (Model_tick_fl sample_constants fast_model_fl))) ! 0 =
      (\<lparr>x_fl = Fin 200, y_fl = Fin (- 200)\<rparr>, \<lparr>x_fl = NInf, y_fl = PInf\<rparr>)"
    by (simp add: map_motion_Model_tick_fl fast_model_fl_def motion_def Cell_tick_fl_def
        Point_add_fl_def is_infected_fl_def immunize_fl_def enforce_bounds_fl_def
        bounce_max_x_fl_def bounce_min_x_fl_def bounce_max_y_fl_def bounce_min_y_fl_def
        fgt_def inf_times_def sample_constants_def Let_def)
  moreover have "0 < length (population_fl (snd (Model_tick_fl sample_constants fast_model_fl)))"
    by (simp add: length_population_Model_tick_fl fast_model_fl_def)
  ultimately show ?thesis
    by (simp add: motion_def)
qed

lemma random_location_fl_half:
  "random_location_fl sample_constants half_rnd k = (\<lparr>x_fl = Fin 0, y_fl = Fin 0\<rparr>, k + 2)"
  by (simp add: random_location_fl_def half_rnd_def sample_constants_def fsub_def
      to_double_200 to_double_0)

lemma random_direction_fl_half_NaN:
  "random_direction_fl half_rnd k NaN = Inr (\<lparr>x_fl = NaN, y_fl = NaN\<rparr>, k + 1)"
  by (simp add: random_direction_fl_def half_rnd_def fpi_def to_double_two_pi to_double_pi
      fcos_def fsin_def)

lemma Model_init_fl_nan:
  "Model_init_fl sample_constants half_rnd 2 NaN 1 0 = Inr nan_model"
  by (simp add: Model_init_fl_def init_loop_fl.simps new_cell_fl_def random_location_fl_half
      random_direction_fl_half_NaN Cell_init_fl_def contract_disease_fl_def nan_model_def)
    (simp add: sample_constants_def)

lemma Model_tick_fl_nan:
  "Model_tick_fl sample_constants nan_model =
     (None,
      \<lparr>population_fl =
         [\<lparr>location_fl = \<lparr>x_fl = NaN, y_fl = NaN\<rparr>,
           direction_fl = \<lparr>x_fl = NaN, y_fl = NaN\<rparr>, sickness_fl = 2\<rparr>,
          \<lparr>location_fl = \<lparr>x_fl = NaN, y_fl = NaN\<rparr>,
           direction_fl = \<lparr>x_fl = NaN, y_fl = NaN\<rparr>, sickness_fl = 0\<rparr>],
       time_fl = 1\<rparr>)"
proof -
  have moved: "move_cells_fl sample_constants (population_fl nan_model) =
      [\<lparr>location_fl = \<lparr>x_fl = NaN, y_fl = NaN\<rparr>,
        direction_fl = \<lparr>x_fl = NaN, y_fl = NaN\<rparr>, sickness_fl = 2\<rparr>,
       \<lparr>location_fl = \<lparr>x_fl = NaN, y_fl = NaN\<rparr>,
        direction_fl = \<lparr>x_fl = NaN, y_fl = NaN\<rparr>, sickness_fl = 0\<rparr>]"
    by (simp add: nan_model_def Cell_tick_fl_def Point_add_fl_def is_infected_fl_def
        immunize_fl_def enforce_bounds_fl_def bounce_max_x_fl_def bounce_min_x_fl_def
        bounce_max_y_fl_def bounce_min_y_fl_def fgt_def sample_constants_def Let_def)
  have dist: "Point_distance_fl \<lparr>x_fl = NaN, y_fl = NaN\<rparr> \<lparr>x_fl = NaN, y_fl = NaN\<rparr> = Inr NaN"
    by (simp add: Point_distance_fl_def fsub_def fpow2_def fsqrt_def)
  have scan: "check_contacts_outer_fl sample_constants 0
      [\<lparr>location_fl = \<lparr>x_fl = NaN, y_fl = NaN\<rparr>,
        direction_fl = \<lparr>x_fl = NaN, y_fl = NaN\<rparr>, sickness_fl = 2\<rparr>,
       \<lparr>location_fl = \<lparr>x_fl = NaN, y_fl = NaN\<rparr>,
        direction_fl = \<lparr>x_fl = NaN, y_fl = NaN\<rparr>, sickness_fl = 0\<rparr>] =
     (None,
      [\<lparr>location_fl = \<lparr>x_fl = NaN, y_fl = NaN\<rparr>,
        direction_fl = \<lparr>x_fl = NaN, y_fl = NaN\<rparr>, sickness_fl = 2\<rparr>,
       \<lparr>location_fl = \<lparr>x_fl = NaN, y_fl = NaN\<rparr>,
        direction_fl = \<lparr>x_fl = NaN, y_fl = NaN\<rparr>, sickness_fl = 0\<rparr>])"
    by (simp add: check_contacts_outer_fl.simps check_contacts_inner_fl.simps contact_at_fl_def
        dist)
  show ?thesis
    by (simp add: Model_tick_fl_def Let_def moved scan) (simp add: nan_model_def)
qed

text \<open>
  The constructor builds such a population whenever the speed is finite: every location
  is finite and no direction has a NaN component.
\<close>

lemma scaled_draw_finite:
  assumes "0 \<le> r" and "r < 1" and "\<bar>w\<bar> \<le> 2 ^ 400" and "\<bar>m\<bar> \<le> 2 ^ 400"
  shows "is_finite (fsub (fmul (Fin r) (Fin w)) (Fin m))"
proof -
  have "\<bar>r * w\<bar> \<le> 1 * \<bar>w\<bar>"
    unfolding abs_mult using assms(1,2) by (intro mult_right_mono) simp_all
  with assms(3) have "\<bar>r * w\<bar> \<le> 2 ^ 400" by simp
  then obtain a where a: "to_double (r * w) = Fin a" "\<bar>a\<bar> \<le> 2 * 2 ^ 400"
    using to_double_bounded [of "r * w" "2 ^ 400"] by auto
  from a(2) assms(4) have "\<bar>a + - m\<bar> \<le> 2 ^ 402" by simp
  then obtain b where "to_double (a + - m) = Fin b"
    using to_double_bounded [of "a + - m" "2 ^ 402"] by auto
  with a(1) show ?thesis
    by (simp add: fsub_def)
qed

lemma random_location_fl_finite:
  assumes "moderate c" and "unit_draws rnd"
  shows "is_finite (x_fl (fst (random_location_fl c rnd k))) \<and>
         is_finite (y_fl (fst (random_location_fl c rnd k)))"
  using assms scaled_draw_finite [of "rnd k" "BOUNDS_WIDTH c" "MAX_X c"]
    scaled_draw_finite [of "rnd (k + 1)" "BOUNDS_HEIGHT c" "MAX_Y c"]
  by (simp add: random_location_fl_def moderate_def unit_draws_def Let_def)

lemma random_direction_fl_no_NaN:
  assumes "unit_draws rnd"
  shows "\<exists>dx dy. random_direction_fl rnd k (Fin s) = Inr (\<lparr>x_fl = dx, y_fl = dy\<rparr>, k + 1) \<and>
                  dx \<noteq> NaN \<and> dy \<noteq> NaN"
proof -
  have r: "0 \<le> rnd k" "rnd k < 1"
    using assms by (simp_all add: unit_draws_def)
  have "0 \<le> 2 * pi_double" "2 * pi_double \<le> 8"
    by (simp_all add: pi_double_def)
  then have "\<bar>2 * pi_double * rnd k\<bar> \<le> 8 * 1"
    unfolding abs_mult using r by (intro mult_mono) simp_all
  then obtain ang where ang: "to_double (2 * pi_double * rnd k) = Fin ang"
    using to_double_bounded [of "2 * pi_double * rnd k" 8] by auto
  obtain cw where cw: "to_double (cos ang) = Fin cw"
    using to_double_bounded [of "cos ang" 1] by auto
  obtain sw where sw: "to_double (sin ang) = Fin sw"
    using to_double_bounded [of "sin ang" 1] by auto
  show ?thesis
    by (simp add: random_direction_fl_def fpi_def to_double_two_pi ang fcos_def fsin_def cw sw
        to_double_not_NaN Let_def)
qed

lemma new_cell_fl_steady:
  assumes "moderate c" and "unit_draws rnd"
  shows "\<exists>cell k'. new_cell_fl c rnd (Fin s) infected immune i k = Inr (cell, k') \<and> steady cell"
proof -
  obtain loc k1 where loc: "random_location_fl c rnd k = (loc, k1)"
    by (cases "random_location_fl c rnd k")
  have fin: "is_finite (x_fl loc)" "is_finite (y_fl loc)"
    using random_location_fl_finite [OF assms, of k] loc by simp_all
  obtain dx dy where dir: "random_direction_fl rnd k1 (Fin s) = Inr (\<lparr>x_fl = dx, y_fl = dy\<rparr>, k1 + 1)"
      "dx \<noteq> NaN" "dy \<noteq> NaN"
    using random_direction_fl_no_NaN [OF assms(2), of k1 s] by blast
  show ?thesis
    using fin dir
    by (simp add: new_cell_fl_def loc Cell_init_fl_def contract_disease_fl_def immunize_fl_def
        steady_def Let_def)
qed

lemma init_loop_fl_steady:
  "moderate c \<Longrightarrow> unit_draws rnd \<Longrightarrow> \<forall>cell \<in> set pop. steady cell \<Longrightarrow>
   \<exists>pop'. init_loop_fl c rnd (Fin s) infected immune cells i k pop = Inr pop' \<and>
          (\<forall>cell \<in> set pop'. steady cell)"
proof (induction c rnd "Fin s" infected immune cells i k pop rule: init_loop_fl.induct)
  case (1 c rnd infected immune cells i k pop)
  show ?case
  proof (cases "i < cells")
    case False
    with "1.prems" show ?thesis
      by (subst init_loop_fl.simps) simp
  next
    case True
    obtain cell k' where nc: "new_cell_fl c rnd (Fin s) infected immune i k = Inr (cell, k')"
        "steady cell"
      using new_cell_fl_steady [OF "1.prems"(1,2), of s infected immune i k] by blast
    have "\<forall>cell \<in> set (pop @ [cell]). steady cell"
      using "1.prems"(3) nc(2) by simp
    from "1.hyps" [OF True nc(1) refl "1.prems"(1,2) this] True nc(1) show ?thesis
      by (subst init_loop_fl.simps) simp
  qed
qed

lemma constructed_population_steady:
  assumes "moderate c" and "unit_draws rnd"
    and "Model_init_fl c rnd cells (Fin s) infected immune = Inr m"
  shows "\<forall>cell \<in> set (population_fl m). steady cell"
proof -
  obtain pop where pop: "init_loop_fl c rnd (Fin s) infected immune cells 0 0 [] = Inr pop"
      "\<forall>cell \<in> set pop. steady cell"
    using init_loop_fl_steady [OF assms(1,2), of "[]" s infected immune cells 0 0] by auto
  with assms(3) show ?thesis
    by (auto simp: Model_init_fl_def split: if_splits)
qed

text \<open>
  C10, as the code has it. With bounds whose minimum is not above their maximum, and a
  population in which every location is finite and no direction has a NaN component,
  every cell is within the bounds on both axes after every call of \<^verbatim>\<open>Model.tick\<close>,
  whether the call raised or not and however large the directions are, infinite ones
  included; and the population is again one with finite locations and no NaN direction.
\<close>

theorem locations_in_bounds_after_ticks:
  assumes "bounds_ok c" and "\<forall>cell \<in> set (population_fl m). steady cell"
  shows "\<forall>cell \<in> set (population_fl (after_ticks c (Suc n) m)).
           in_bounds_fl c (location_fl cell) \<and> steady cell"
proof (induction n)
  case 0
  show ?case
    using tick_keeps_in_bounds [OF assms] by (simp add: after_ticks_def)
next
  case (Suc n)
  then have "\<forall>cell \<in> set (population_fl (after_ticks c (Suc n) m)). steady cell"
    by blast
  from tick_keeps_in_bounds [OF assms(1) this] show ?case
    by (simp add: after_ticks_def)
qed

theorem locations_in_bounds_after_ticks_witness:
  "bounds_ok sample_constants \<and>
   steady (population_fl fast_model_fl ! 0) \<and> steady (population_fl fast_model_fl ! 1) \<and>
   location_fl (population_fl (snd (Model_tick_fl sample_constants fast_model_fl)) ! 0) =
     \<lparr>x_fl = Fin 200, y_fl = Fin (- 200)\<rparr> \<and>
   in_bounds_fl sample_constants
     (location_fl (population_fl (after_ticks sample_constants (Suc 2) fast_model_fl) ! 0)) \<and>
   in_bounds_fl sample_constants
     (location_fl (population_fl (after_ticks sample_constants (Suc 2) fast_model_fl) ! 1))"
proof -
  have st: "steady (population_fl fast_model_fl ! 0)" "steady (population_fl fast_model_fl ! 1)"
    by (simp_all add: fast_model_fl_def steady_def)
  have all: "\<forall>cell \<in> set (population_fl fast_model_fl). steady cell"
    by (simp add: fast_model_fl_def steady_def)
  have len: "length (population_fl (after_ticks sample_constants n fast_model_fl)) = 2" for n
    by (induction n) (simp_all add: after_ticks_def length_population_Model_tick_fl fast_model_fl_def)
  have mem: "population_fl (after_ticks sample_constants (Suc 2) fast_model_fl) ! 0
      \<in> set (population_fl (after_ticks sample_constants (Suc 2) fast_model_fl))"
    "population_fl (after_ticks sample_constants (Suc 2) fast_model_fl) ! 1
      \<in> set (population_fl (after_ticks sample_constants (Suc 2) fast_model_fl))"
    using len [of "Suc 2"] by simp_all
  show ?thesis
    using locations_in_bounds_after_ticks [OF bounds_ok_sample all, of 2] mem st
      bounds_ok_sample Model_tick_fl_fast_first
    by blast
qed

text \<open>
  C10, as the claim has it, fails for the model that \<^verbatim>\<open>Model(2, float('nan'), 1)\<close>
  builds: the constructor does not look at the speed, every direction is NaN, the first
  step makes every location NaN, none of the four tests of \<^verbatim>\<open>enforce_bounds\<close> is true
  of a NaN, and the cells are not within the bounds.
\<close>

theorem nan_speed_leaves_bounds:
  "bounds_ok sample_constants \<and>
   Model_init_fl sample_constants half_rnd 2 NaN 1 0 = Inr nan_model \<and>
   map location_fl (population_fl (snd (Model_tick_fl sample_constants nan_model))) =
     [\<lparr>x_fl = NaN, y_fl = NaN\<rparr>, \<lparr>x_fl = NaN, y_fl = NaN\<rparr>] \<and>
   \<not> fle (Fin (MIN_X sample_constants))
       (x_fl (location_fl (population_fl (snd (Model_tick_fl sample_constants nan_model)) ! 0))) \<and>
   \<not> in_bounds_fl sample_constants
       (location_fl (population_fl (snd (Model_tick_fl sample_constants nan_model)) ! 0))"
  using bounds_ok_sample Model_init_fl_nan
  by (simp add: Model_tick_fl_nan in_bounds_fl_def)

end
